theory Spec2Isabelle
  imports Main "HOL-Library.Word" "HOL-Library.Multiset"
begin

unbundle bit_operations_syntax

section \<open>Data model (config/types.ts)\<close>

text \<open>
  Token amounts are integral numbers of the smallest token unit.  The source carries them
  as JavaScript numbers; here they are \<open>int\<close>, and the sums and differences the source
  takes of them are rounded as those of doubles are (section JavaScript numbers below).
  Of the \<open>UTXO\<close> interface only
  the fields the transfer pipeline reads are kept: \<open>data.bsv21.amt\<close>, the single element
  of the one-tuple \<open>owners\<close>, \<open>txid\<close> and \<open>vout\<close>.
\<close>

record UTXO =
  amt :: int
  owner :: string
  txid :: string
  vout :: nat

record Selection =
  selectedUtxos :: "UTXO list"
  signingAddresses :: "string list"
  tokensIn :: int

section \<open>Errors\<close>

text \<open>
  One constructor per \<open>throw\<close> site of the modelled code; \<open>External\<close> is any failure
  raised by a collaborator outside the repository (cosigner, signer, ledger SDK), with its
  message.
\<close>

datatype error =
    InsufficientTokens int int   \<comment> \<open>selectUtxos: ``Insufficient MNEE tokens: have, need''\<close>
  | SyntaxError                  \<comment> \<open>\<open>BigInt('0x' + str)\<close> on a string that is no hex literal\<close>
  | RLengthZero                  \<comment> \<open>encodeDER: ``R length is zero''\<close>
  | SLengthZero                  \<comment> \<open>encodeDER: ``S length is zero''\<close>
  | RLengthTooLong               \<comment> \<open>encodeDER: ``R length is too long''\<close>
  | SLengthTooLong               \<comment> \<open>encodeDER: ``S length is too long''\<close>
  | RNegative                    \<comment> \<open>encodeDER: ``R value is negative''\<close>
  | SNegative                    \<comment> \<open>encodeDER: ``S value is negative''\<close>
  | RExcessivelyPadded           \<comment> \<open>encodeDER: ``R value excessively padded''\<close>
  | SExcessivelyPadded           \<comment> \<open>encodeDER: ``S value excessively padded''\<close>
  | VaultAccountIdRequiredForSigning
      \<comment> \<open>signMultipleHashes: ``Vault account ID is required for signing''\<close>
  | NoSignedMessages
      \<comment> \<open>signMultipleHashes: ``No signed messages returned from Fireblocks''\<close>
  | NoMatchingSignature nat
      \<comment> \<open>signMultipleHashes: ``Could not find matching signature for input i''\<close>
  | TypeError
      \<comment> \<open>reading a property of \<open>undefined\<close>\<close>
  | VaultAccountIdRequired
      \<comment> \<open>transferTokens: ``Vault account ID is required for transfers''\<close>
  | InvalidAmount
      \<comment> \<open>transferTokens: ``Please enter a valid amount greater than 0''\<close>
  | FeeRangesInadequate
      \<comment> \<open>``Fee ranges inadequate''\<close>
  | AmountAfterFeeTooSmall int int
      \<comment> \<open>transferTokens: ``Amount after fee (a) is too small. Minimum transfer amount is m''\<close>
  | InsufficientTokensForFee int int
      \<comment> \<open>transferTokens: ``Insufficient tokens to cover fee when emptying wallet. Have h,
          need at least f''\<close>
  | SourceTransactionNotFound
      \<comment> \<open>prepareSignatureRequests: ``Source transaction not found''\<close>
  | FailedToGetSignatures
      \<comment> \<open>transferTokens: ``Failed to get signatures''\<close>
  | SourceVaultAccountIdRequired
      \<comment> \<open>transferTokensFromVault: ``Source vault account ID is required''\<close>
  | NoAddressesInVault string
      \<comment> \<open>transferTokensFromVault: ``No BSV addresses found for vault account v''\<close>
  | FeeRangesInadequateForTotal
      \<comment> \<open>transferTokensFromVault: ``Fee ranges inadequate for total balance''\<close>
  | InsufficientBalanceToCoverFee int int
      \<comment> \<open>transferTokensFromVault: ``Insufficient balance to cover fee. Have h, need at
          least f for fee''\<close>
  | InsufficientBalanceInVault int int
      \<comment> \<open>transferTokensFromVault: ``Insufficient balance in vault. Required: r,
          Available: a''\<close>
  | External string

section \<open>JavaScript numbers\<close>

text \<open>
  A JavaScript number is an IEEE 754 double.  The token amounts are integers; a double
  holds every integer of magnitude up to \<open>2 ^ 53\<close>, and above that only the multiples of a
  power of two (53 significant bits), so an \<open>int\<close> above \<open>2 ^ 53\<close> that is no such
  multiple stands for no amount of the source.  \<open>ulp a\<close> is the spacing of the doubles at
  the magnitude \<open>a\<close>.
\<close>

function ulp :: "int \<Rightarrow> int" where
  "ulp a = (if a < 2 ^ 53 then 1 else 2 * ulp (a div 2))"
  by pat_completeness auto
termination
  by (relation "measure nat") auto

declare ulp.simps [simp del]

text \<open>
  The double nearest to an integer, ties to the even significand: what an addition or a
  subtraction of two integer-valued doubles returns for their exact sum or difference
  (results beyond the largest double, about \<open>2 ^ 1024\<close>, are not covered).
\<close>

definition roundDouble :: "int \<Rightarrow> int" where
  "roundDouble x =
     (let a = \<bar>x\<bar>; q = ulp a; d = a div q; r = a mod q;
          n = (if 2 * r < q then d
               else if q < 2 * r then d + 1
               else if even d then d else d + 1)
      in sgn x * (n * q))"

text \<open>\<open>a + b\<close> and \<open>a - b\<close> on numbers.\<close>

definition dadd :: "int \<Rightarrow> int \<Rightarrow> int" where
  "dadd a b = roundDouble (a + b)"

definition dsub :: "int \<Rightarrow> int \<Rightarrow> int" where
  "dsub a b = roundDouble (a - b)"

section \<open>UTXO selection (TransactionService.selectUtxos)\<close>

text \<open>
  \<open>firstIndex\<close> is the ascending \<open>for\<close> loop that stops at the first hit,
  \<open>lastIndex\<close> the descending one; \<open>None\<close> stands for \<open>selectedIndex === -1\<close>.
\<close>

fun firstIndex :: "('a \<Rightarrow> bool) \<Rightarrow> 'a list \<Rightarrow> nat option" where
  "firstIndex P [] = None"
| "firstIndex P (x # xs) = (if P x then Some 0 else map_option Suc (firstIndex P xs))"

fun lastIndex :: "('a \<Rightarrow> bool) \<Rightarrow> 'a list \<Rightarrow> nat option" where
  "lastIndex P [] = None"
| "lastIndex P (x # xs) =
     (case lastIndex P xs of
        Some i \<Rightarrow> Some (Suc i)
      | None \<Rightarrow> if P x then Some 0 else None)"

definition pickIndex :: "int \<Rightarrow> UTXO list \<Rightarrow> nat" where
  "pickIndex gap utxosCopy =
     (case firstIndex (\<lambda>u. amt u = gap) utxosCopy of
        Some i \<Rightarrow> i
      | None \<Rightarrow>
          (case lastIndex (\<lambda>u. gap \<le> amt u) utxosCopy of
             Some i \<Rightarrow> i
           | None \<Rightarrow> 0))"

text \<open>\<open>utxosCopy.splice(i, 1)\<close>: the list without its element at index \<open>i\<close>.\<close>

definition spliceOut :: "nat \<Rightarrow> 'a list \<Rightarrow> 'a list" where
  "spliceOut i xs = take i xs @ drop (Suc i) xs"

lemma firstIndex_less: "firstIndex P xs = Some i \<Longrightarrow> i < length xs"
  by (induction xs arbitrary: i) (auto split: if_splits)

lemma lastIndex_less: "lastIndex P xs = Some i \<Longrightarrow> i < length xs"
  by (induction xs arbitrary: i) (auto split: option.splits if_splits)

lemma pickIndex_less: "xs \<noteq> [] \<Longrightarrow> pickIndex g xs < length xs"
  by (auto simp: pickIndex_def split: option.splits
           dest: firstIndex_less lastIndex_less)

lemma length_spliceOut: "i < length xs \<Longrightarrow> length (spliceOut i xs) < length xs"
  by (simp add: spliceOut_def)

text \<open>
  The \<open>while\<close> loop of \<open>selectUtxos\<close>, on the remaining candidates and the three
  accumulators; every round removes one candidate, at an index within the list
  (\<open>pickIndex_less\<close>).
\<close>

function selectLoop ::
  "int \<Rightarrow> UTXO list \<Rightarrow> UTXO list \<Rightarrow> string list \<Rightarrow> int \<Rightarrow> Selection" where
  "selectLoop amountNeeded utxosCopy sel addrs tIn =
     (if tIn < amountNeeded \<and> utxosCopy \<noteq> [] then
        let selectedIndex = pickIndex (dsub amountNeeded tIn) utxosCopy;
            utxo = utxosCopy ! selectedIndex
        in selectLoop amountNeeded (spliceOut selectedIndex utxosCopy)
             (sel @ [utxo]) (addrs @ [owner utxo]) (dadd tIn (amt utxo))
      else \<lparr>selectedUtxos = sel, signingAddresses = addrs, tokensIn = tIn\<rparr>)"
  by pat_completeness auto
termination
  by (relation "measure (\<lambda>(n, us, sel, ads, t). length us)")
     (auto simp: pickIndex_less length_spliceOut)

declare selectLoop.simps [simp del]

text \<open>
  The copy is sorted by amount, largest first; \<open>Array.prototype.sort\<close> is stable, and so
  is \<open>sort_key\<close>.  The comparator \<open>b.amt - a.amt\<close> is a difference of doubles, which has
  the sign of the exact difference.
\<close>

definition selectUtxos :: "UTXO list \<Rightarrow> int \<Rightarrow> error + Selection" where
  "selectUtxos utxos amountNeeded =
     (let utxosCopy = sort_key (\<lambda>u. - amt u) utxos;
          r = selectLoop amountNeeded utxosCopy [] [] 0
      in if tokensIn r < amountNeeded
         then Inl (InsufficientTokens (tokensIn r) amountNeeded)
         else Inr r)"

section \<open>Hexadecimal strings and buffers (JavaScript and Node built-ins)\<close>

text \<open>
  A \<open>Buffer\<close> is a list of bytes.  A string is a list of characters with codes below
  256.
\<close>

type_synonym byte = "8 word"

text \<open>
  The digit of a value below 16, lower case, as \<open>toString(16)\<close> prints it (it is applied
  to values below 16 only).
\<close>

definition hexChar :: "nat \<Rightarrow> char" where
  "hexChar d = ''0123456789abcdef'' ! d"

text \<open>The value of a hexadecimal digit of either case; \<open>None\<close> for any other character.\<close>

definition unhex :: "char \<Rightarrow> nat option" where
  "unhex c =
     (let k = (of_char c :: nat) in
      if 48 \<le> k \<and> k \<le> 57 then Some (k - 48)
      else if 97 \<le> k \<and> k \<le> 102 then Some (k - 87)
      else if 65 \<le> k \<and> k \<le> 70 then Some (k - 55)
      else None)"

definition isHexDigit :: "char \<Rightarrow> bool" where
  "isHexDigit c = (unhex c \<noteq> None)"

text \<open>A hex string: one hexadecimal digit or more, and nothing else.\<close>

definition hexString :: "string \<Rightarrow> bool" where
  "hexString str = (str \<noteq> [] \<and> list_all isHexDigit str)"

text \<open>The digits of a natural number in base 16, most significant first.\<close>

function hexDigits :: "nat \<Rightarrow> string" where
  "hexDigits n = (if n < 16 then [hexChar n] else hexDigits (n div 16) @ [hexChar (n mod 16)])"
  by pat_completeness auto
termination
  by (relation "measure (\<lambda>n. n)") auto

declare hexDigits.simps [simp del]

text \<open>
  \<open>x.toString(16)\<close> for a BigInt, and for a Number holding an integer: a minus sign
  before the digits of a negative value.
\<close>

definition toString16 :: "int \<Rightarrow> string" where
  "toString16 x = (if x < 0 then CHR ''-'' # hexDigits (nat (- x)) else hexDigits (nat x))"

text \<open>\<open>str.padStart(n, c)\<close> with a one-character filler.\<close>

definition padStart :: "nat \<Rightarrow> char \<Rightarrow> string \<Rightarrow> string" where
  "padStart n c str = replicate (n - length str) c @ str"

text \<open>
  \<open>Buffer.from(str, 'hex')\<close>: two characters a byte; decoding stops, keeping what it
  has, at the first pair that is not two hexadecimal digits, and a last odd character is
  dropped.
\<close>

fun bufferFromHex :: "string \<Rightarrow> byte list" where
  "bufferFromHex (a # b # rest) =
     (case (unhex a, unhex b) of
        (Some x, Some y) \<Rightarrow> word_of_nat (16 * x + y) # bufferFromHex rest
      | _ \<Rightarrow> [])"
| "bufferFromHex _ = []"

text \<open>\<open>buf.toString('hex')\<close> and the ledger SDK's \<open>Utils.toHex\<close>: two digits a byte.\<close>

definition byteHex :: "byte \<Rightarrow> string" where
  "byteHex b = [hexChar (unat b div 16), hexChar (unat b mod 16)]"

definition toHex :: "byte list \<Rightarrow> string" where
  "toHex bs = concat (map byteHex bs)"

text \<open>
  \<open>BigInt('0x' + str)\<close>.  White space after the digits (tab, line feed, vertical tab,
  form feed, carriage return, space, no-break space) is skipped, as the string-to-BigInt
  grammar allows; an empty digit sequence or any other character is a SyntaxError
  (\<open>None\<close>).
\<close>

definition isWhiteSpace :: "char \<Rightarrow> bool" where
  "isWhiteSpace c = (of_char c \<in> {9, 10, 11, 12, 13, 32, 160 :: nat})"

definition hexValue :: "string \<Rightarrow> nat" where
  "hexValue str = foldl (\<lambda>a c. 16 * a + (case unhex c of Some d \<Rightarrow> d | None \<Rightarrow> 0)) 0 str"

definition parseBigIntHex :: "string \<Rightarrow> int option" where
  "parseBigIntHex str =
     (let digits = rev (dropWhile isWhiteSpace (rev str)) in
      if digits = [] \<or> \<not> list_all isHexDigit digits then None
      else Some (int (hexValue digits)))"

text \<open>The unsigned big-endian number a byte string holds (how a DER INTEGER is read).\<close>

definition bytesToNat :: "byte list \<Rightarrow> nat" where
  "bytesToNat bs = foldl (\<lambda>a b. 256 * a + unat b) 0 bs"

section \<open>DER signatures (utils/crypto.utils.ts)\<close>

text \<open>The fields \<open>r\<close>, \<open>s\<close>, \<open>v\<close> and \<open>pubKey\<close> of a \<open>FireblocksSignature\<close>.\<close>

record FireblocksSignature =
  sig_r :: string
  sig_s :: string
  sig_v :: int
  pubKey :: string

definition toDER :: "byte list \<Rightarrow> byte list" where
  "toDER buffer =
     (let stripped = dropWhile (\<lambda>b. b = 0) buffer in
      if stripped = [] then [0]
      else if stripped ! 0 AND 0x80 \<noteq> 0 then 0 # stripped
      else stripped)"

text \<open>
  The bytes \<open>encodeDER\<close> writes into its result: the SEQUENCE tag and length, then each
  INTEGER with its tag and length.
\<close>

definition derBytes :: "byte list \<Rightarrow> byte list \<Rightarrow> byte list" where
  "derBytes r s =
     [0x30, word_of_nat (6 + length r + length s - 2), 0x02, word_of_nat (length r)] @ r
       @ [0x02, word_of_nat (length s)] @ s"

definition encodeDER :: "byte list \<Rightarrow> byte list \<Rightarrow> error + byte list" where
  "encodeDER r s =
     (let lenR = length r; lenS = length s in
      if lenR = 0 then Inl RLengthZero
      else if lenS = 0 then Inl SLengthZero
      else if lenR > 33 then Inl RLengthTooLong
      else if lenS > 33 then Inl SLengthTooLong
      else if r ! 0 AND 0x80 \<noteq> 0 then Inl RNegative
      else if s ! 0 AND 0x80 \<noteq> 0 then Inl SNegative
      else if lenR > 1 \<and> r ! 0 = 0 \<and> \<not> (r ! 1 AND 0x80 \<noteq> 0) then Inl RExcessivelyPadded
      else if lenS > 1 \<and> s ! 0 = 0 \<and> \<not> (s ! 1 AND 0x80 \<noteq> 0) then Inl SExcessivelyPadded
      else Inr (derBytes r s))"

text \<open>The order of the secp256k1 group, and \<open>n / BigInt(2)\<close>.\<close>

definition curveN :: int where
  "curveN = 0xFFFFFFFFFFFFFFFFFFFFFFFFFFFFFFFEBAAEDCE6AF48A03BBFD25E8CD0364141"

definition halfN :: int where
  "halfN = curveN div 2"

definition normalizeS :: "int \<Rightarrow> int" where
  "normalizeS s = (if s > halfN then curveN - s else s)"

text \<open>\<open>Buffer.from(x.toString(16).padStart(64, '0'), 'hex')\<close>.\<close>

definition bigIntToBuffer :: "int \<Rightarrow> byte list" where
  "bigIntToBuffer x = bufferFromHex (padStart 64 (CHR ''0'') (toString16 x))"

definition createDERSignature :: "FireblocksSignature \<Rightarrow> int \<Rightarrow> error + string" where
  "createDERSignature signature sigHashType =
     (case parseBigIntHex (sig_r signature) of
        None \<Rightarrow> Inl SyntaxError
      | Some r \<Rightarrow>
     (case parseBigIntHex (sig_s signature) of
        None \<Rightarrow> Inl SyntaxError
      | Some s \<Rightarrow>
          let normalizedS = normalizeS s;
              rBuffer = bigIntToBuffer r;
              sBuffer = bigIntToBuffer normalizedS;
              processedR = toDER rBuffer;
              processedS = toDER sBuffer
          in (case encodeDER processedR processedS of
                Inl e \<Rightarrow> Inl e
              | Inr derSig \<Rightarrow>
                  let derHex = toHex derSig;
                      sigHashHex = padStart 2 (CHR ''0'') (toString16 sigHashType)
                  in Inr (derHex @ sigHashHex))))"

text \<open>
  \<open>doubleHash\<close> applies the digest once to its argument; the digest itself (SHA-256 of
  Node's \<open>crypto\<close> module) is a parameter.
\<close>

definition doubleHash :: "(byte list \<Rightarrow> byte list) \<Rightarrow> byte list \<Rightarrow> byte list" where
  "doubleHash sha256 buffer = sha256 buffer"

section \<open>Transactions, signature requests and the signer's messages\<close>

text \<open>
  A transaction as the pipeline builds it.  An output is the cosign lock of an address
  under the approver key with the inscription of a token id and an amount, worth one
  satoshi; an input names a previous output and carries the source transaction that was
  fetched for it (its outputs' locking scripts and satoshi values) and, once signed, its
  unlocking script (signature and public key).
\<close>

record SourceOutput =
  src_lockingScript :: string
  src_satoshis :: int

record TxInput =
  sourceTXID :: string
  sourceOutputIndex :: nat
  sourceTransaction :: "SourceOutput list option"
  unlockingScript :: "(string \<times> string) option"

record TxOutput =
  lockAddress :: string
  lockApprover :: string
  inscriptionId :: string
  inscriptionAmt :: int
  satoshis :: int

record Transaction =
  version :: int
  inputs :: "TxInput list"
  outputs :: "TxOutput list"

record SignatureRequest =
  prevTxid :: string
  outputIndex :: nat
  req_inputIndex :: nat
  address :: string
  req_bip44AddressIndex :: int
  script :: string
  req_satoshis :: int
  req_sigHashType :: int

record HashWithIndex =
  hash :: "byte list"
  inputIndex :: nat
  hw_sigHashType :: int
  hw_bip44AddressIndex :: "int option"

text \<open>An element of \<open>rawMessageData.messages\<close>, as submitted to the signer.\<close>

record RawMessage =
  content :: string
  bip44addressIndex :: int
  bip44change :: int

text \<open>
  An element of the response's \<open>signedMessages\<close>: its \<open>content\<close>, the \<open>r\<close>, \<open>s\<close>
  and \<open>v\<close> of its \<open>signature\<close>, and its \<open>publicKey\<close>.
\<close>

record SignedMessage =
  signed_content :: string
  signed_r :: string
  signed_s :: string
  signed_v :: int
  signed_publicKey :: string

text \<open>The calls that leave the process, in the order they are made.\<close>

datatype ExternalCall =
    FetchConfig                          \<comment> \<open>cosigner: GET /config\<close>
  | FetchUtxos "string list"             \<comment> \<open>cosigner: POST /utxos\<close>
  | FetchTransaction string              \<comment> \<open>cosigner: GET /tx/txid\<close>
  | GetVaultAddresses string             \<comment> \<open>signer: the vault's addresses\<close>
  | SignerSubmit string "RawMessage list"
      \<comment> \<open>signer: createTransaction with the messages, then the status poll\<close>
  | SubmitTransaction Transaction        \<comment> \<open>cosigner: POST /transfer\<close>

text \<open>
  The signer as \<open>signMultipleHashes\<close> sees it: from the vault account and the submitted
  messages, either a failure (of the submission, or of \<open>waitForSignature\<close> on a failed,
  blocked, cancelled or rejected job) or the final response's \<open>signedMessages\<close>, which may
  be missing (\<open>None\<close>).
\<close>

type_synonym signer = "string \<Rightarrow> RawMessage list \<Rightarrow> error + SignedMessage list option"

section \<open>Batched signing (FireblocksService.signMultipleHashes)\<close>

text \<open>\<open>xs.map(f)\<close> for an \<open>f\<close> that may throw: the first throw ends the map.\<close>

fun mapE :: "('a \<Rightarrow> error + 'b) \<Rightarrow> 'a list \<Rightarrow> error + 'b list" where
  "mapE f [] = Inr []"
| "mapE f (x # xs) =
     (case f x of
        Inl e \<Rightarrow> Inl e
      | Inr y \<Rightarrow> (case mapE f xs of Inl e \<Rightarrow> Inl e | Inr ys \<Rightarrow> Inr (y # ys)))"

text \<open>
  \<open>doubleHashHex\<close>, computed the same way where the messages are prepared and where the
  responses are matched.
\<close>

definition doubleHashHex :: "(byte list \<Rightarrow> byte list) \<Rightarrow> byte list \<Rightarrow> string" where
  "doubleHashHex sha256 h = toHex (doubleHash sha256 h)"

definition prepareMessages ::
  "(byte list \<Rightarrow> byte list) \<Rightarrow> HashWithIndex list \<Rightarrow> RawMessage list" where
  "prepareMessages sha256 sigHashesWithIndex =
     map (\<lambda>h. \<lparr>content = doubleHashHex sha256 (hash h),
               bip44addressIndex = (case hw_bip44AddressIndex h of None \<Rightarrow> 0 | Some i \<Rightarrow> i),
               bip44change = 0\<rparr>)
         sigHashesWithIndex"

definition matchSignature ::
  "(byte list \<Rightarrow> byte list) \<Rightarrow> SignedMessage list \<Rightarrow> HashWithIndex
     \<Rightarrow> error + nat \<times> FireblocksSignature" where
  "matchSignature sha256 signedMessages h =
     (case find (\<lambda>signedMsg. signed_content signedMsg = doubleHashHex sha256 (hash h))
             signedMessages of
        None \<Rightarrow> Inl (NoMatchingSignature (inputIndex h))
      | Some matchingSignature \<Rightarrow>
          Inr (inputIndex h,
               \<lparr>sig_r = signed_r matchingSignature, sig_s = signed_s matchingSignature,
                sig_v = signed_v matchingSignature,
                pubKey = signed_publicKey matchingSignature\<rparr>))"

text \<open>
  The result and the external calls made.  The note sent along (amount and destination,
  for display in the signer's console) takes no part in the result.
\<close>

definition signMultipleHashes ::
  "(byte list \<Rightarrow> byte list) \<Rightarrow> signer \<Rightarrow> HashWithIndex list \<Rightarrow> string
     \<Rightarrow> (error + (nat \<times> FireblocksSignature) list) \<times> ExternalCall list" where
  "signMultipleHashes sha256 client sigHashesWithIndex vaultAccountId =
     (if vaultAccountId = [] then (Inl VaultAccountIdRequiredForSigning, [])
      else
        let messages = prepareMessages sha256 sigHashesWithIndex;
            calls = [SignerSubmit vaultAccountId messages]
        in (case client vaultAccountId messages of
              Inl e \<Rightarrow> (Inl e, calls)
            | Inr None \<Rightarrow> (Inl NoSignedMessages, calls)
            | Inr (Some signedMessages) \<Rightarrow>
                if signedMessages = [] then (Inl NoSignedMessages, calls)
                else (mapE (matchSignature sha256 signedMessages) sigHashesWithIndex, calls)))"

section \<open>Signature hashes and signatures (TransactionService)\<close>

text \<open>
  The sighash preimage (\<open>TransactionSignature.format\<close> of the ledger SDK) is a parameter:
  a function of the transaction, the input index, the locking script, the satoshi value
  and the sighash type.
\<close>

type_synonym preimage = "Transaction \<Rightarrow> nat \<Rightarrow> string \<Rightarrow> int \<Rightarrow> int \<Rightarrow> byte list"

definition createSignatureHash ::
  "(byte list \<Rightarrow> byte list) \<Rightarrow> preimage \<Rightarrow> Transaction \<Rightarrow> nat \<Rightarrow> string \<Rightarrow> int \<Rightarrow> int
     \<Rightarrow> error + string" where
  "createSignatureHash sha256 format tx i lockingScript sats sigHashTy =
     (if i < length (inputs tx)
      then Inr (toHex (sha256 (format tx i lockingScript sats sigHashTy)))
      else Inl TypeError)"

definition hashRequest ::
  "(byte list \<Rightarrow> byte list) \<Rightarrow> preimage \<Rightarrow> Transaction \<Rightarrow> SignatureRequest
     \<Rightarrow> error + HashWithIndex" where
  "hashRequest sha256 format tx request =
     (case createSignatureHash sha256 format tx (req_inputIndex request) (script request)
             (req_satoshis request) (req_sigHashType request) of
        Inl e \<Rightarrow> Inl e
      | Inr sigHash \<Rightarrow>
          Inr \<lparr>hash = bufferFromHex sigHash, inputIndex = req_inputIndex request,
               hw_sigHashType = req_sigHashType request,
               hw_bip44AddressIndex = Some (req_bip44AddressIndex request)\<rparr>)"

definition derResult ::
  "SignatureRequest list \<Rightarrow> nat \<times> FireblocksSignature \<Rightarrow> error + nat \<times> string \<times> string" where
  "derResult sigRequests result =
     (case result of (i, signature) \<Rightarrow>
        (case find (\<lambda>req. req_inputIndex req = i) sigRequests of
           None \<Rightarrow> Inl TypeError
         | Some request \<Rightarrow>
             (case createDERSignature signature (req_sigHashType request) of
                Inl e \<Rightarrow> Inl e
              | Inr sigWithHashType \<Rightarrow> Inr (i, sigWithHashType, pubKey signature))))"

definition getSignatures ::
  "(byte list \<Rightarrow> byte list) \<Rightarrow> preimage \<Rightarrow> signer \<Rightarrow> Transaction \<Rightarrow> SignatureRequest list
     \<Rightarrow> string \<Rightarrow> (error + (nat \<times> string \<times> string) list) \<times> ExternalCall list" where
  "getSignatures sha256 format client tx sigRequests vaultAccountId =
     (case mapE (hashRequest sha256 format tx) sigRequests of
        Inl e \<Rightarrow> (Inl e, [])
      | Inr hashesWithIndices \<Rightarrow>
          (case signMultipleHashes sha256 client hashesWithIndices vaultAccountId of
             (Inl e, calls) \<Rightarrow> (Inl e, calls)
           | (Inr signedResults, calls) \<Rightarrow> (mapE (derResult sigRequests) signedResults, calls)))"

section \<open>Configuration, wallet and the world outside (MNEEFireblocksSDK)\<close>

text \<open>A fee tier \<open>{fee, max, min}\<close> and the fields of \<open>MNEEConfig\<close> the transfer reads.\<close>

record FeeTier =
  feeAmt :: int
  maxAmt :: int
  minAmt :: int

record MNEEConfig =
  approver :: string
  feeAddress :: string
  fees :: "FeeTier list"
  tokenId :: string

record WalletObject =
  w_ordAddress :: string
  w_vaultAccountId :: string
  w_bip44AddressIndex :: "int option"

text \<open>\<open>TransferOptions.grossAmount\<close>; a missing flag is falsy.\<close>

record TransferOptions =
  grossAmount :: bool

text \<open>
  What the collaborators answer: the cosigner's configuration, UTXOs and source
  transactions; the signer's vault addresses (with their BIP44 indexes) and signatures; the
  cosigner's verdict on a submitted transaction (the hash of the transaction it returns);
  whether the ledger SDK can build the cosign lock of an address under an approver key
  (\<open>Some\<close> the error it throws otherwise); the digest and the sighash preimage.
\<close>

record World =
  fetchConfigResp :: "error + MNEEConfig"
  fetchUtxosResp :: "string list \<Rightarrow> error + UTXO list"
  fetchTransactionResp :: "string \<Rightarrow> error + SourceOutput list"
  vaultAddressesResp :: "string \<Rightarrow> error + (string \<times> int) list"
  signerResp :: signer
  submitResp :: "Transaction \<Rightarrow> error + string"
  lockError :: "string \<Rightarrow> string \<Rightarrow> error option"
  digest :: "byte list \<Rightarrow> byte list"
  sighashFormat :: preimage

text \<open>
  \<open>if (!this.tokenConfig) this.tokenConfig = await this.cosignerService.fetchConfig()\<close>:
  the configuration, the cache afterwards and the calls made.
\<close>

definition ensureConfig ::
  "World \<Rightarrow> MNEEConfig option \<Rightarrow> (error + MNEEConfig) \<times> MNEEConfig option \<times> ExternalCall list" where
  "ensureConfig w cache =
     (case cache of
        Some cfg \<Rightarrow> (Inr cfg, cache, [])
      | None \<Rightarrow>
          (case fetchConfigResp w of
             Inl e \<Rightarrow> (Inl e, None, [FetchConfig])
           | Inr cfg \<Rightarrow> (Inr cfg, Some cfg, [FetchConfig])))"

text \<open>\<open>fees.find(fee => amount >= fee.min && amount <= fee.max)?.fee\<close>.\<close>

definition findFee :: "FeeTier list \<Rightarrow> int \<Rightarrow> int option" where
  "findFee tiers amount =
     map_option feeAmt (find (\<lambda>t. minAmt t \<le> amount \<and> amount \<le> maxAmt t) tiers)"

section \<open>Amounts of a transfer (transferTokens, from the UTXO total to amountNeeded)\<close>

record Plan =
  plan_totalAvailableTokens :: int
  plan_isEmptyingWallet :: bool
  plan_useGrossAmount :: bool
  plan_fee :: int
  plan_tokenSatAmt :: int
  plan_amountNeeded :: int

text \<open>
  The amounts are numbers: the total is added up UTXO by UTXO, and the differences and
  sums below are those of doubles.
\<close>

definition planAmounts :: "MNEEConfig \<Rightarrow> UTXO list \<Rightarrow> int \<Rightarrow> TransferOptions \<Rightarrow> error + Plan" where
  "planAmounts cfg utxos amount options =
     (let totalTokens = foldl (\<lambda>sum utxo. dadd sum (amt utxo)) 0 utxos;
          emptying = (\<bar>dsub totalTokens amount\<bar> < 1);
          useGross = (grossAmount options \<or> emptying)
      in case findFee (fees cfg) amount of
           None \<Rightarrow> Inl FeeRangesInadequate
         | Some f \<Rightarrow>
             let tokSatAmt = (if useGross then dsub amount f else amount) in
             if useGross \<and> tokSatAmt \<le> 0
               then Inl (AmountAfterFeeTooSmall tokSatAmt (dadd f 1))
             else if emptying \<and> totalTokens < f
               then Inl (InsufficientTokensForFee totalTokens f)
             else Inr \<lparr>plan_totalAvailableTokens = totalTokens, plan_isEmptyingWallet = emptying,
                       plan_useGrossAmount = useGross, plan_fee = f,
                       plan_tokenSatAmt = tokSatAmt,
                       plan_amountNeeded = (if useGross then amount else dadd tokSatAmt f)\<rparr>)"

section \<open>Inputs and outputs of the draft transaction (transferTokens)\<close>

text \<open>
  One input per selected UTXO, each after fetching its source transaction; the first
  failing fetch ends the loop.
\<close>

fun fetchInputs :: "World \<Rightarrow> UTXO list \<Rightarrow> (error + TxInput list) \<times> ExternalCall list" where
  "fetchInputs w [] = (Inr [], [])"
| "fetchInputs w (utxo # rest) =
     (case fetchTransactionResp w (txid utxo) of
        Inl e \<Rightarrow> (Inl e, [FetchTransaction (txid utxo)])
      | Inr src \<Rightarrow>
          (case fetchInputs w rest of
             (Inl e, calls) \<Rightarrow> (Inl e, FetchTransaction (txid utxo) # calls)
           | (Inr ins, calls) \<Rightarrow>
               (Inr (\<lparr>sourceTXID = txid utxo, sourceOutputIndex = vout utxo,
                       sourceTransaction = Some src, unlockingScript = None\<rparr> # ins),
                FetchTransaction (txid utxo) # calls)))"

text \<open>
  An output: the cosign lock of an address under the approver key, inscribed with the
  token id and an amount, worth one satoshi.
\<close>

definition tokenOutput :: "World \<Rightarrow> MNEEConfig \<Rightarrow> string \<Rightarrow> int \<Rightarrow> error + TxOutput" where
  "tokenOutput w cfg addr amount =
     (case lockError w addr (approver cfg) of
        Some e \<Rightarrow> Inl e
      | None \<Rightarrow>
          Inr \<lparr>lockAddress = addr, lockApprover = approver cfg, inscriptionId = tokenId cfg,
               inscriptionAmt = amount, satoshis = 1\<rparr>)"

text \<open>
  The change output, added when \<open>tokensIn - amountNeeded\<close>, a difference of doubles, is
  positive.
\<close>

definition changeOutputs ::
  "World \<Rightarrow> MNEEConfig \<Rightarrow> string \<Rightarrow> int \<Rightarrow> int \<Rightarrow> error + TxOutput list" where
  "changeOutputs w cfg senderAddress tokIn needed =
     (let changeTokenSatAmt = dsub tokIn needed in
      if changeTokenSatAmt > 0 then
        (case tokenOutput w cfg senderAddress changeTokenSatAmt of
           Inl e \<Rightarrow> Inl e
         | Inr out \<Rightarrow> Inr [out])
      else Inr [])"

definition buildOutputs ::
  "World \<Rightarrow> MNEEConfig \<Rightarrow> string \<Rightarrow> string \<Rightarrow> Plan \<Rightarrow> int \<Rightarrow> error + TxOutput list" where
  "buildOutputs w cfg recipient senderAddress plan tokIn =
     (case tokenOutput w cfg recipient (plan_tokenSatAmt plan) of
        Inl e \<Rightarrow> Inl e
      | Inr recipientOut \<Rightarrow>
     (case tokenOutput w cfg (feeAddress cfg) (plan_fee plan) of
        Inl e \<Rightarrow> Inl e
      | Inr feeOut \<Rightarrow>
     (case changeOutputs w cfg senderAddress tokIn (plan_amountNeeded plan) of
        Inl e \<Rightarrow> Inl e
      | Inr change \<Rightarrow> Inr (recipientOut # feeOut # change))))"

text \<open>
  The locals of \<open>transferTokens\<close> once the outputs are complete: the draft transaction,
  the selection and the amounts.
\<close>

record Draft =
  draftTx :: Transaction
  draftSelection :: Selection
  draftPlan :: Plan

text \<open>
  \<open>transferTokens\<close> up to the complete draft: the result, the configuration cache
  afterwards and the external calls made, in order.
\<close>

definition buildTransfer ::
  "World \<Rightarrow> MNEEConfig option \<Rightarrow> string \<Rightarrow> int \<Rightarrow> WalletObject \<Rightarrow> TransferOptions
     \<Rightarrow> (error + Draft) \<times> MNEEConfig option \<times> ExternalCall list" where
  "buildTransfer w cache recipient amount walletObject options =
     (if w_vaultAccountId walletObject = [] then (Inl VaultAccountIdRequired, cache, [])
      else
        (case ensureConfig w cache of
           (Inl e, cache1, c1) \<Rightarrow> (Inl e, cache1, c1)
         | (Inr cfg, cache1, c1) \<Rightarrow>
             if amount \<le> 0 then (Inl InvalidAmount, cache1, c1)
             else
               let senderAddress = w_ordAddress walletObject;
                   c2 = c1 @ [FetchUtxos [senderAddress]]
               in (case fetchUtxosResp w [senderAddress] of
                     Inl e \<Rightarrow> (Inl e, cache1, c2)
                   | Inr utxos \<Rightarrow>
                  (case planAmounts cfg utxos amount options of
                     Inl e \<Rightarrow> (Inl e, cache1, c2)
                   | Inr plan \<Rightarrow>
                  (case selectUtxos utxos (plan_amountNeeded plan) of
                     Inl e \<Rightarrow> (Inl e, cache1, c2)
                   | Inr sel \<Rightarrow>
                  (case fetchInputs w (selectedUtxos sel) of
                     (Inl e, c3) \<Rightarrow> (Inl e, cache1, c2 @ c3)
                   | (Inr ins, c3) \<Rightarrow>
                  (case buildOutputs w cfg recipient senderAddress plan (tokensIn sel) of
                     Inl e \<Rightarrow> (Inl e, cache1, c2 @ c3)
                   | Inr outs \<Rightarrow>
                       (Inr \<lparr>draftTx = \<lparr>version = 1, inputs = ins, outputs = outs\<rparr>,
                             draftSelection = sel, draftPlan = plan\<rparr>,
                        cache1, c2 @ c3))))))))"

section \<open>Signing and submitting the draft (transferTokens, TransactionService)\<close>

text \<open>
  The sighash scope \<open>SIGHASH_ALL | SIGHASH_ANYONECANPAY | SIGHASH_FORKID\<close> of the ledger
  SDK: \<open>0x01\<close>, \<open>0x80\<close> and \<open>0x40\<close>.
\<close>

definition sighashScope :: int where
  "sighashScope = 1 OR 128 OR 64"

definition prepareSignatureRequest ::
  "string list \<Rightarrow> int list \<Rightarrow> nat \<times> TxInput \<Rightarrow> error + SignatureRequest" where
  "prepareSignatureRequest signingAddrs bip44Indexes indexed =
     (case indexed of (index, input) \<Rightarrow>
        (case sourceTransaction input of
           None \<Rightarrow> Inl SourceTransactionNotFound
         | Some srcOutputs \<Rightarrow>
             if sourceTXID input = [] then Inl SourceTransactionNotFound
             else if sourceOutputIndex input < length srcOutputs then
               let srcOut = srcOutputs ! sourceOutputIndex input in
               Inr \<lparr>prevTxid = sourceTXID input,
                    outputIndex = sourceOutputIndex input,
                    req_inputIndex = index,
                    address = (if index < length signingAddrs then signingAddrs ! index else []),
                    req_bip44AddressIndex =
                      (if index < length bip44Indexes then bip44Indexes ! index else 0),
                    script = src_lockingScript srcOut,
                    req_satoshis = (if src_satoshis srcOut = 0 then 1 else src_satoshis srcOut),
                    req_sigHashType = sighashScope\<rparr>
             else Inl TypeError))"

definition prepareSignatureRequests ::
  "Transaction \<Rightarrow> string list \<Rightarrow> int list \<Rightarrow> error + SignatureRequest list" where
  "prepareSignatureRequests tx signingAddrs bip44Indexes =
     mapE (prepareSignatureRequest signingAddrs bip44Indexes) (List.enumerate 0 (inputs tx))"

text \<open>
  \<open>applySignatures\<close>: the unlocking script of each signed input becomes its signature
  and public key.
\<close>

fun applySignatures ::
  "Transaction \<Rightarrow> (nat \<times> string \<times> string) list \<Rightarrow> error + Transaction" where
  "applySignatures tx [] = Inr tx"
| "applySignatures tx ((i, sig, pk) # rest) =
     (if i < length (inputs tx)
      then applySignatures
             (tx\<lparr>inputs := (inputs tx)[i := (inputs tx ! i)\<lparr>unlockingScript := Some (sig, pk)\<rparr>]\<rparr>)
             rest
      else Inl TypeError)"

definition signAndSubmit ::
  "World \<Rightarrow> Draft \<Rightarrow> WalletObject \<Rightarrow> (error + string) \<times> ExternalCall list" where
  "signAndSubmit w draft walletObject =
     (let tx = draftTx draft;
          signingAddrs = signingAddresses (draftSelection draft);
          bip44 = (case w_bip44AddressIndex walletObject of None \<Rightarrow> 0 | Some i \<Rightarrow> i);
          bip44Indexes = map (\<lambda>_. bip44) signingAddrs
      in case prepareSignatureRequests tx signingAddrs bip44Indexes of
           Inl e \<Rightarrow> (Inl e, [])
         | Inr sigRequests \<Rightarrow>
        (case getSignatures (digest w) (sighashFormat w) (signerResp w) tx sigRequests
                (w_vaultAccountId walletObject) of
           (Inl e, calls) \<Rightarrow> (Inl e, calls)
         | (Inr signatures, calls) \<Rightarrow>
             if signatures = [] then (Inl FailedToGetSignatures, calls)
             else
               (case applySignatures tx signatures of
                  Inl e \<Rightarrow> (Inl e, calls)
                | Inr signedTx \<Rightarrow>
                    (case submitResp w signedTx of
                       Inl e \<Rightarrow> (Inl e, calls @ [SubmitTransaction signedTx])
                     | Inr transactionHash \<Rightarrow>
                         (Inr transactionHash, calls @ [SubmitTransaction signedTx])))))"

definition transferTokens ::
  "World \<Rightarrow> MNEEConfig option \<Rightarrow> string \<Rightarrow> int \<Rightarrow> WalletObject \<Rightarrow> TransferOptions
     \<Rightarrow> (error + string) \<times> MNEEConfig option \<times> ExternalCall list" where
  "transferTokens w cache recipient amount walletObject options =
     (case buildTransfer w cache recipient amount walletObject options of
        (Inl e, cache1, calls) \<Rightarrow> (Inl e, cache1, calls)
      | (Inr draft, cache1, calls) \<Rightarrow>
          (case signAndSubmit w draft walletObject of
             (res, calls2) \<Rightarrow> (res, cache1, calls @ calls2)))"

section \<open>Transfers from a vault (transferTokensFromVault)\<close>

text \<open>
  A finite double \<open>m * 2 ^ e\<close>, given by an integer \<open>m\<close> of at most 53 bits and an
  exponent \<open>e\<close>: the type of an amount in whole tokens.
\<close>

type_synonym jsNumber = "int \<times> int"

text \<open>\<open>Math.round\<close> of the double \<open>r * 2 ^ e\<close>: the nearest integer, halves upwards.\<close>

definition mathRound :: "int \<Rightarrow> int \<Rightarrow> int" where
  "mathRound r e =
     (if 0 \<le> e then r * 2 ^ nat e
      else (r + 2 ^ (nat (- e) - 1)) div 2 ^ nat (- e))"

text \<open>
  \<open>tokensToSatoshis\<close>: \<open>Math.round(tokenAmount * MNEE_DIVISOR)\<close> with the divisor
  \<open>10 ** 5\<close>.  The product of the doubles is the double nearest to the exact product,
  \<open>roundDouble (m * 100000) * 2 ^ e\<close> (products outside the normal range of doubles are
  not covered).
\<close>

definition tokensToSatoshis :: "jsNumber \<Rightarrow> int" where
  "tokensToSatoshis tokenAmount =
     (case tokenAmount of (m, e) \<Rightarrow> mathRound (roundDouble (m * 100000)) e)"

text \<open>The vault total skips UTXOs whose amount is falsy (zero).\<close>

definition vaultTotal :: "UTXO list \<Rightarrow> int" where
  "vaultTotal utxos =
     foldl (\<lambda>sum utxo. if amt utxo \<noteq> 0 then dadd sum (amt utxo) else sum) 0 utxos"

text \<open>
  The amount in satoshis and the gross flag, after the balance checks: for a full-balance
  withdrawal (no amount given) the vault total, gross; for a given amount its conversion,
  with the caller's flag.
\<close>

definition vaultAmount ::
  "MNEEConfig \<Rightarrow> int \<Rightarrow> jsNumber option \<Rightarrow> TransferOptions
     \<Rightarrow> error + int \<times> TransferOptions" where
  "vaultAmount cfg totalTokens amount options =
     (case amount of
        None \<Rightarrow>
          (case findFee (fees cfg) totalTokens of
             None \<Rightarrow> Inl FeeRangesInadequateForTotal
           | Some f \<Rightarrow>
               if totalTokens \<le> f then Inl (InsufficientBalanceToCoverFee totalTokens f)
               else Inr (totalTokens, options\<lparr>grossAmount := True\<rparr>))
      | Some tokenAmount \<Rightarrow>
          let satoshiAmount = tokensToSatoshis tokenAmount in
          (case findFee (fees cfg) satoshiAmount of
             None \<Rightarrow> Inl FeeRangesInadequate
           | Some f \<Rightarrow>
               let totalRequired = (if grossAmount options then satoshiAmount
                                    else dadd satoshiAmount f)
               in if totalTokens < totalRequired
                  then Inl (InsufficientBalanceInVault totalRequired totalTokens)
                  else Inr (satoshiAmount, options)))"

text \<open>
  The source address: the owner of the first UTXO if there is one, else the vault's first
  address; its BIP44 index is the last one the vault lists for it, or 0.
\<close>

definition sourceWallet ::
  "string \<Rightarrow> string \<Rightarrow> (string \<times> int) list \<Rightarrow> UTXO list \<Rightarrow> WalletObject" where
  "sourceWallet vaultId firstAddress addressesWithIndexes utxos =
     (let selectedAddress = (case utxos of [] \<Rightarrow> firstAddress | u # _ \<Rightarrow> owner u)
      in \<lparr>w_ordAddress = selectedAddress, w_vaultAccountId = vaultId,
           w_bip44AddressIndex =
             Some (case map_of (rev addressesWithIndexes) selectedAddress of
                     None \<Rightarrow> 0 | Some i \<Rightarrow> i)\<rparr>)"

definition transferTokensFromVault ::
  "World \<Rightarrow> MNEEConfig option \<Rightarrow> string \<Rightarrow> string \<Rightarrow> jsNumber option \<Rightarrow> TransferOptions
     \<Rightarrow> (error + string) \<times> MNEEConfig option \<times> ExternalCall list" where
  "transferTokensFromVault w cache sourceVaultAccountId recipientAddress amount options =
     (if sourceVaultAccountId = [] then (Inl SourceVaultAccountIdRequired, cache, [])
      else
        let c1 = [GetVaultAddresses sourceVaultAccountId] in
        (case vaultAddressesResp w sourceVaultAccountId of
           Inl e \<Rightarrow> (Inl e, cache, c1)
         | Inr [] \<Rightarrow> (Inl (NoAddressesInVault sourceVaultAccountId), cache, c1)
         | Inr ((firstAddress, firstIdx) # others) \<Rightarrow>
             let addressesWithIndexes = (firstAddress, firstIdx) # others;
                 addresses = map fst addressesWithIndexes;
                 c2 = c1 @ [FetchUtxos addresses]
             in (case fetchUtxosResp w addresses of
                   Inl e \<Rightarrow> (Inl e, cache, c2)
                 | Inr utxos \<Rightarrow>
                (case ensureConfig w cache of
                   (Inl e, cache1, c3) \<Rightarrow> (Inl e, cache1, c2 @ c3)
                 | (Inr cfg, cache1, c3) \<Rightarrow>
                (case vaultAmount cfg (vaultTotal utxos) amount options of
                   Inl e \<Rightarrow> (Inl e, cache1, c2 @ c3)
                 | Inr (satoshiAmount, options1) \<Rightarrow>
                     (case transferTokens w cache1 recipientAddress satoshiAmount
                             (sourceWallet sourceVaultAccountId firstAddress
                                addressesWithIndexes utxos)
                             options1 of
                        (res, cache2, c4) \<Rightarrow> (res, cache2, c2 @ c3 @ c4)))))))"

section \<open>Example data\<close>

text \<open>
  A configuration with the two fee tiers \<open>[0, 100]\<close> at fee 1 and \<open>[101, 100000]\<close> at fee
  5, three UTXOs of 700, 200 and 150 tokens at one address, and a world in which every
  collaborator answers.
\<close>

definition exampleConfig :: MNEEConfig where
  "exampleConfig =
     \<lparr>approver = ''02aa'', feeAddress = ''1Fee'',
      fees = [\<lparr>feeAmt = 1, maxAmt = 100, minAmt = 0\<rparr>,
              \<lparr>feeAmt = 5, maxAmt = 100000, minAmt = 101\<rparr>],
      tokenId = ''tok''\<rparr>"

definition exampleUtxos :: "UTXO list" where
  "exampleUtxos =
     [\<lparr>amt = 700, owner = ''1Sender'', txid = ''t1'', vout = 0\<rparr>,
      \<lparr>amt = 200, owner = ''1Sender'', txid = ''t2'', vout = 0\<rparr>,
      \<lparr>amt = 150, owner = ''1Sender'', txid = ''t3'', vout = 0\<rparr>]"

definition exampleWorld :: World where
  "exampleWorld =
     \<lparr>fetchConfigResp = Inr exampleConfig,
      fetchUtxosResp = (\<lambda>addresses. Inr exampleUtxos),
      fetchTransactionResp = (\<lambda>t. Inr [\<lparr>src_lockingScript = ''76a9'', src_satoshis = 1\<rparr>]),
      vaultAddressesResp = (\<lambda>v. Inr [(''1Sender'', 0)]),
      signerResp = (\<lambda>v ms. Inr None),
      submitResp = (\<lambda>tx. Inr ''txhash''),
      lockError = (\<lambda>a k. None),
      digest = (\<lambda>b. b),
      sighashFormat = (\<lambda>tx i sc sa ty. [])\<rparr>"

definition exampleWallet :: WalletObject where
  "exampleWallet = \<lparr>w_ordAddress = ''1Sender'', w_vaultAccountId = ''7'', w_bip44AddressIndex = None\<rparr>"


text \<open>
  A vault that holds one UTXO of \<open>2 ^ 53 = 9007199254740992\<close> tokens, under a configuration
  with the single fee tier \<open>[0, 2 ^ 53]\<close> at fee 2.
\<close>

definition largeConfig :: MNEEConfig where
  "largeConfig =
     \<lparr>approver = ''02aa'', feeAddress = ''1Fee'',
      fees = [\<lparr>feeAmt = 2, maxAmt = 9007199254740992, minAmt = 0\<rparr>],
      tokenId = ''tok''\<rparr>"

definition largeWorld :: World where
  "largeWorld =
     exampleWorld
       \<lparr>fetchConfigResp := Inr largeConfig,
        fetchUtxosResp :=
          (\<lambda>addresses. Inr [\<lparr>amt = 9007199254740992, owner = ''1Sender'', txid = ''t1'',
                              vout = 0\<rparr>])\<rparr>"

section \<open>Properties of the rounding of numbers\<close>

lemma ulp_small: "a < 2 ^ 53 \<Longrightarrow> ulp a = 1"
  by (subst ulp.simps) simp

lemma ulp_double: "2 ^ 53 \<le> a \<Longrightarrow> ulp a = 2 * ulp (a div 2)"
  by (subst ulp.simps) simp

text \<open>Every integer of magnitude up to \<open>2 ^ 53\<close> is a double.\<close>

lemma roundDouble_exact: "\<bar>x\<bar> \<le> 2 ^ 53 \<Longrightarrow> roundDouble x = x"
proof (cases "\<bar>x\<bar> < 2 ^ 53")
  case True
  then have "ulp \<bar>x\<bar> = 1"
    by (rule ulp_small)
  then show ?thesis
    by (simp add: roundDouble_def Let_def mult_sgn_abs)
next
  case False
  assume "\<bar>x\<bar> \<le> 2 ^ 53"
  with False have a: "\<bar>x\<bar> = 2 ^ 53" by simp
  have "ulp \<bar>x\<bar> = 2"
    by (simp add: a ulp_double ulp_small)
  then have "roundDouble x = sgn x * \<bar>x\<bar>"
    by (simp add: roundDouble_def Let_def a)
  then show ?thesis
    by (simp add: mult_sgn_abs)
qed

lemma dadd_exact: "0 \<le> a \<Longrightarrow> 0 \<le> b \<Longrightarrow> a + b \<le> 2 ^ 53 \<Longrightarrow> dadd a b = a + b"
  by (simp add: dadd_def roundDouble_exact)

lemma dsub_exact: "0 \<le> b \<Longrightarrow> b \<le> a \<Longrightarrow> a \<le> 2 ^ 53 \<Longrightarrow> dsub a b = a - b"
  by (simp add: dsub_def roundDouble_exact)

text \<open>Rounding keeps the sign, and takes no integer but 0 to 0.\<close>

lemma ulp_pos: "0 < ulp a"
proof (induction a rule: ulp.induct)
  case (1 a)
  show ?case
  proof (cases "a < 2 ^ 53")
    case True
    then show ?thesis by (simp add: ulp_small)
  next
    case False
    with 1 show ?thesis by (simp add: ulp_double)
  qed
qed

lemma ulp_le: "2 ^ 53 \<le> a \<Longrightarrow> ulp a * 2 ^ 52 \<le> a"
proof (induction a rule: ulp.induct)
  case (1 a)
  show ?case
  proof (cases "a div 2 < 2 ^ 53")
    case True
    with "1.prems" show ?thesis by (simp add: ulp_double ulp_small)
  next
    case False
    with "1.IH" "1.prems" have "ulp (a div 2) * 2 ^ 52 \<le> a div 2" by simp
    with "1.prems" show ?thesis by (simp add: ulp_double)
  qed
qed

lemma roundDouble_magnitude:
  assumes "x \<noteq> 0"
  shows "\<exists>m. 0 < m \<and> roundDouble x = sgn x * m"
proof -
  let ?a = "\<bar>x\<bar>"
  let ?q = "ulp ?a"
  have q: "0 < ?q" by (rule ulp_pos)
  have d: "0 < ?a div ?q"
  proof (cases "?a < 2 ^ 53")
    case True
    with assms show ?thesis by (simp add: ulp_small)
  next
    case False
    then have "?q * 2 ^ 52 \<le> ?a" by (intro ulp_le) simp
    moreover have "?q \<le> ?q * 2 ^ 52" using q by simp
    ultimately have "?q \<le> ?a" by (rule order_trans [rotated])
    with q show ?thesis by (simp add: pos_imp_zdiv_pos_iff)
  qed
  define n where "n = (if 2 * (?a mod ?q) < ?q then ?a div ?q
               else if ?q < 2 * (?a mod ?q) then ?a div ?q + 1
               else if even (?a div ?q) then ?a div ?q else ?a div ?q + 1)"
  have "0 < n" using d by (simp add: n_def)
  then have "0 < n * ?q" using q by simp
  moreover have "roundDouble x = sgn x * (n * ?q)"
    by (simp add: roundDouble_def Let_def n_def)
  ultimately show ?thesis by blast
qed

lemma roundDouble_0 [simp]: "roundDouble 0 = 0"
  by (simp add: roundDouble_exact)

lemma roundDouble_pos_iff: "0 < roundDouble x \<longleftrightarrow> 0 < x"
proof (cases "x = 0")
  case True
  then show ?thesis by simp
next
  case False
  from roundDouble_magnitude [OF this] obtain m where "0 < m" "roundDouble x = sgn x * m"
    by blast
  then show ?thesis by (simp add: sgn_if zero_less_mult_iff)
qed

lemma roundDouble_abs_less_1_iff: "\<bar>roundDouble x\<bar> < 1 \<longleftrightarrow> x = 0"
proof (cases "x = 0")
  case True
  then show ?thesis by simp
next
  case False
  from roundDouble_magnitude [OF this] obtain m where "0 < m" "roundDouble x = sgn x * m"
    by blast
  with False show ?thesis by (simp add: sgn_if)
qed

lemma roundDouble_eq_0_iff: "roundDouble x = 0 \<longleftrightarrow> x = 0"
  using roundDouble_abs_less_1_iff [of x] by simp

section \<open>Properties of the UTXO selection\<close>

lemma selectLoop_step:
  assumes "tIn < n \<and> us \<noteq> []"
  shows "selectLoop n us sel addrs tIn =
           selectLoop n (spliceOut (pickIndex (dsub n tIn) us) us)
             (sel @ [us ! pickIndex (dsub n tIn) us])
             (addrs @ [owner (us ! pickIndex (dsub n tIn) us)])
             (dadd tIn (amt (us ! pickIndex (dsub n tIn) us)))"
  using assms by (subst selectLoop.simps) (simp add: Let_def)

lemma selectLoop_stop:
  assumes "\<not> (tIn < n \<and> us \<noteq> [])"
  shows "selectLoop n us sel addrs tIn =
           \<lparr>selectedUtxos = sel, signingAddresses = addrs, tokensIn = tIn\<rparr>"
  using assms by (subst selectLoop.simps) auto

lemma selectLoop_addrs:
  "addrs = map owner sel \<Longrightarrow>
   signingAddresses (selectLoop n us sel addrs tIn) =
     map owner (selectedUtxos (selectLoop n us sel addrs tIn))"
proof (induction n us sel addrs tIn rule: selectLoop.induct)
  case (1 n us sel addrs tIn)
  show ?case
  proof (cases "tIn < n \<and> us \<noteq> []")
    case True
    from "1.IH" [OF True refl refl] "1.prems" show ?thesis
      by (simp add: selectLoop_step [OF True])
  next
    case False
    with "1.prems" show ?thesis by (simp add: selectLoop_stop)
  qed
qed

lemma mset_spliceOut:
  assumes "i < length xs"
  shows "add_mset (xs ! i) (mset (spliceOut i xs)) = mset xs"
proof -
  have "xs = take i xs @ xs ! i # drop (Suc i) xs"
    using assms by (simp add: id_take_nth_drop)
  then have "mset xs = mset (take i xs @ xs ! i # drop (Suc i) xs)"
    by simp
  then show ?thesis
    by (simp add: spliceOut_def)
qed

lemma sum_spliceOut:
  fixes f :: "'a \<Rightarrow> int"
  assumes "i < length xs"
  shows "sum_list (map f xs) = f (xs ! i) + sum_list (map f (spliceOut i xs))"
proof -
  have "xs = take i xs @ xs ! i # drop (Suc i) xs"
    using assms by (simp add: id_take_nth_drop)
  then have "sum_list (map f xs) = sum_list (map f (take i xs @ xs ! i # drop (Suc i) xs))"
    by simp
  then show ?thesis
    by (simp add: spliceOut_def)
qed

lemma set_spliceOut: "set (spliceOut i xs) \<subseteq> set xs"
proof -
  have "set (take i xs) \<subseteq> set xs" "set (drop (Suc i) xs) \<subseteq> set xs"
    by (rule set_take_subset, rule set_drop_subset)
  then show ?thesis by (simp add: spliceOut_def)
qed

lemma selectLoop_mset:
  "mset (selectedUtxos (selectLoop n us sel addrs tIn)) \<subseteq># mset sel + mset us"
proof (induction n us sel addrs tIn rule: selectLoop.induct)
  case (1 n us sel addrs tIn)
  show ?case
  proof (cases "tIn < n \<and> us \<noteq> []")
    case True
    then have i: "pickIndex (dsub n tIn) us < length us"
      by (simp add: pickIndex_less)
    have "mset (sel @ [us ! pickIndex (dsub n tIn) us])
            + mset (spliceOut (pickIndex (dsub n tIn) us) us) = mset sel + mset us"
      using mset_spliceOut [OF i] by simp
    with "1.IH" [OF True refl refl] show ?thesis
      by (simp only: selectLoop_step [OF True])
  next
    case False
    then show ?thesis by (simp add: selectLoop_stop)
  qed
qed

text \<open>The loop ends short of the amount needed only when no candidate is left.\<close>

lemma selectLoop_exit:
  "tokensIn (selectLoop n us sel addrs tIn) < n \<Longrightarrow>
   mset (selectedUtxos (selectLoop n us sel addrs tIn)) = mset sel + mset us"
proof (induction n us sel addrs tIn rule: selectLoop.induct)
  case (1 n us sel addrs tIn)
  show ?case
  proof (cases "tIn < n \<and> us \<noteq> []")
    case True
    then have i: "pickIndex (dsub n tIn) us < length us"
      by (simp add: pickIndex_less)
    have m: "mset (sel @ [us ! pickIndex (dsub n tIn) us])
            + mset (spliceOut (pickIndex (dsub n tIn) us) us) = mset sel + mset us"
      using mset_spliceOut [OF i] by simp
    from "1.prems" have "tokensIn (selectLoop n (spliceOut (pickIndex (dsub n tIn) us) us)
             (sel @ [us ! pickIndex (dsub n tIn) us])
             (addrs @ [owner (us ! pickIndex (dsub n tIn) us)])
             (dadd tIn (amt (us ! pickIndex (dsub n tIn) us)))) < n"
      by (simp only: selectLoop_step [OF True])
    from "1.IH" [OF True refl refl this] m show ?thesis
      by (simp only: selectLoop_step [OF True])
  next
    case False
    with "1.prems" show ?thesis by (simp add: selectLoop_stop)
  qed
qed

text \<open>
  While the amounts are not negative and their total is at most \<open>2 ^ 53\<close>, every addition
  of the loop is exact, and the total it returns is the sum of the selected amounts.
\<close>

lemma selectLoop_sum:
  assumes "\<forall>u \<in> set us. 0 \<le> amt u" "0 \<le> tIn" "tIn + sum_list (map amt us) \<le> 2 ^ 53"
      and "tIn = sum_list (map amt sel)"
  shows "tokensIn (selectLoop n us sel addrs tIn) =
           sum_list (map amt (selectedUtxos (selectLoop n us sel addrs tIn)))"
  using assms
proof (induction n us sel addrs tIn rule: selectLoop.induct)
  case (1 n us sel addrs tIn)
  show ?case
  proof (cases "tIn < n \<and> us \<noteq> []")
    case True
    let ?i = "pickIndex (dsub n tIn) us"
    have i: "?i < length us"
      using True by (simp add: pickIndex_less)
    then have nonneg: "0 \<le> amt (us ! ?i)"
      using "1.prems"(1) by simp
    have split: "sum_list (map amt us) = amt (us ! ?i) + sum_list (map amt (spliceOut ?i us))"
      using i by (rule sum_spliceOut)
    have rest: "0 \<le> sum_list (map amt (spliceOut ?i us))"
      using "1.prems"(1) set_spliceOut [of ?i us] by (intro sum_list_nonneg) auto
    have exact: "dadd tIn (amt (us ! ?i)) = tIn + amt (us ! ?i)"
      using "1.prems"(2,3) nonneg split rest by (intro dadd_exact) simp_all
    have a: "\<forall>u \<in> set (spliceOut ?i us). 0 \<le> amt u"
      using "1.prems"(1) set_spliceOut [of ?i us] by auto
    have b: "0 \<le> dadd tIn (amt (us ! ?i))"
      using "1.prems"(2) nonneg by (simp add: exact)
    have c: "dadd tIn (amt (us ! ?i)) + sum_list (map amt (spliceOut ?i us)) \<le> 2 ^ 53"
      using "1.prems"(3) split by (simp add: exact)
    have "tIn + amt (us ! ?i) = sum_list (map amt (sel @ [us ! ?i]))"
      using "1.prems"(4) by simp
    then have d: "dadd tIn (amt (us ! ?i)) = sum_list (map amt (sel @ [us ! ?i]))"
      by (simp only: exact)
    from "1.IH" [OF True refl refl a b c d] show ?thesis
      by (simp only: selectLoop_step [OF True])
  next
    case False
    with "1.prems"(4) show ?thesis by (simp add: selectLoop_stop)
  qed
qed

lemma selectLoop_bound:
  assumes "\<forall>u \<in> set us. 0 \<le> amt u" "0 \<le> tIn" "tIn + sum_list (map amt us) \<le> 2 ^ 53"
  shows "tokensIn (selectLoop n us sel addrs tIn) \<le> tIn + sum_list (map amt us)"
  using assms
proof (induction n us sel addrs tIn rule: selectLoop.induct)
  case (1 n us sel addrs tIn)
  have all: "0 \<le> sum_list (map amt us)"
    using "1.prems"(1) by (intro sum_list_nonneg) auto
  show ?case
  proof (cases "tIn < n \<and> us \<noteq> []")
    case True
    let ?i = "pickIndex (dsub n tIn) us"
    have i: "?i < length us"
      using True by (simp add: pickIndex_less)
    then have nonneg: "0 \<le> amt (us ! ?i)"
      using "1.prems"(1) by simp
    have split: "sum_list (map amt us) = amt (us ! ?i) + sum_list (map amt (spliceOut ?i us))"
      using i by (rule sum_spliceOut)
    have rest: "0 \<le> sum_list (map amt (spliceOut ?i us))"
      using "1.prems"(1) set_spliceOut [of ?i us] by (intro sum_list_nonneg) auto
    have exact: "dadd tIn (amt (us ! ?i)) = tIn + amt (us ! ?i)"
      using "1.prems"(2,3) nonneg split rest by (intro dadd_exact) simp_all
    have a: "\<forall>u \<in> set (spliceOut ?i us). 0 \<le> amt u"
      using "1.prems"(1) set_spliceOut [of ?i us] by auto
    have b: "0 \<le> dadd tIn (amt (us ! ?i))"
      using "1.prems"(2) nonneg by (simp add: exact)
    have c: "dadd tIn (amt (us ! ?i)) + sum_list (map amt (spliceOut ?i us)) \<le> 2 ^ 53"
      using "1.prems"(3) split by (simp add: exact)
    from "1.IH" [OF True refl refl a b c]
    have "tokensIn (selectLoop n us sel addrs tIn)
            \<le> dadd tIn (amt (us ! ?i)) + sum_list (map amt (spliceOut ?i us))"
      by (simp only: selectLoop_step [OF True])
    then show ?thesis
      using split by (simp add: exact)
  next
    case False
    with all show ?thesis by (simp add: selectLoop_stop)
  qed
qed

lemma sum_list_sort_key:
  fixes f :: "'a \<Rightarrow> int"
  shows "sum_list (map f (sort_key k xs)) = sum_list (map f xs)"
proof -
  have "sum_list (map f ys) = sum_mset (image_mset f (mset ys))" for ys
    by (simp flip: sum_mset_sum_list)
  then show ?thesis by simp
qed

lemma sum_list_mset_eq:
  fixes f :: "'a \<Rightarrow> int"
  assumes "mset xs = mset ys"
  shows "sum_list (map f xs) = sum_list (map f ys)"
proof -
  have "sum_list (map f zs) = sum_mset (image_mset f (mset zs))" for zs
    by (simp flip: sum_mset_sum_list)
  with assms show ?thesis by simp
qed

text \<open>Within that range the total of a selection is exact, and at most the available total.\<close>

lemma selectUtxos_exact:
  assumes "selectUtxos utxos n = Inr sel"
      and "\<forall>u \<in> set utxos. 0 \<le> amt u" "sum_list (map amt utxos) \<le> 2 ^ 53"
  shows "tokensIn sel = sum_list (map amt (selectedUtxos sel))"
    and "tokensIn sel \<le> sum_list (map amt utxos)"
proof -
  let ?us = "sort_key (\<lambda>u. - amt u) utxos"
  have sel: "sel = selectLoop n ?us [] [] 0"
    using assms(1) by (auto simp: selectUtxos_def Let_def split: if_splits)
  show "tokensIn sel = sum_list (map amt (selectedUtxos sel))"
    unfolding sel using assms(2,3) by (intro selectLoop_sum) (simp_all add: sum_list_sort_key)
  have "tokensIn (selectLoop n ?us [] [] 0) \<le> 0 + sum_list (map amt ?us)"
    using assms(2,3) by (intro selectLoop_bound) (simp_all add: sum_list_sort_key)
  then show "tokensIn sel \<le> sum_list (map amt utxos)"
    by (simp add: sel sum_list_sort_key)
qed

text \<open>
  C1 (as amended).  \<open>selectUtxos\<close> either returns a selection or raises the
  insufficient-tokens error.  A selection is drawn from the available UTXOs, one signing
  address per selected UTXO, and its \<open>tokensIn\<close> is never below the amount needed.  The
  error carries a total that is below the amount needed.  When the amounts of the
  available UTXOs are not negative and their sum is at most \<open>2 ^ 53\<close>, \<open>tokensIn\<close> is the
  sum of the selected amounts, which therefore cover the amount needed, and the total of
  the error is the sum of all the available amounts.
\<close>

theorem selectUtxos_covers_or_fails:
  "(case selectUtxos utxos amountNeeded of
      Inr sel \<Rightarrow>
        amountNeeded \<le> tokensIn sel
      \<and> mset (selectedUtxos sel) \<subseteq># mset utxos
      \<and> signingAddresses sel = map owner (selectedUtxos sel)
      \<and> ((\<forall>u \<in> set utxos. 0 \<le> amt u) \<and> sum_list (map amt utxos) \<le> 2 ^ 53 \<longrightarrow>
           tokensIn sel = sum_list (map amt (selectedUtxos sel))
         \<and> amountNeeded \<le> sum_list (map amt (selectedUtxos sel)))
    | Inl e \<Rightarrow>
        (\<exists>got. e = InsufficientTokens got amountNeeded \<and> got < amountNeeded
           \<and> ((\<forall>u \<in> set utxos. 0 \<le> amt u) \<and> sum_list (map amt utxos) \<le> 2 ^ 53 \<longrightarrow>
                got = sum_list (map amt utxos))))"
proof -
  let ?us = "sort_key (\<lambda>u. - amt u) utxos"
  let ?r = "selectLoop amountNeeded ?us [] [] 0"
  have sub: "mset (selectedUtxos ?r) \<subseteq># mset utxos"
    using selectLoop_mset [of amountNeeded ?us "[]" "[]" 0] by simp
  have addrs: "signingAddresses ?r = map owner (selectedUtxos ?r)"
    by (rule selectLoop_addrs) simp
  have exact: "tokensIn ?r = sum_list (map amt (selectedUtxos ?r))"
    if "\<forall>u \<in> set utxos. 0 \<le> amt u" "sum_list (map amt utxos) \<le> 2 ^ 53"
    using that by (intro selectLoop_sum) (simp_all add: sum_list_sort_key)
  have all: "sum_list (map amt (selectedUtxos ?r)) = sum_list (map amt utxos)"
    if "tokensIn ?r < amountNeeded"
  proof -
    have "mset (selectedUtxos ?r) = mset utxos"
      using selectLoop_exit [OF that] by simp
    then show ?thesis by (rule sum_list_mset_eq)
  qed
  show ?thesis
  proof (cases "tokensIn ?r < amountNeeded")
    case True
    then show ?thesis
      using exact all by (simp add: selectUtxos_def Let_def)
  next
    case False
    then show ?thesis
      using sub addrs exact by (auto simp: selectUtxos_def Let_def)
  qed
qed

text \<open>The selection for 855 tokens out of 700, 200 and 150.\<close>

lemma example_select_855:
  "selectUtxos exampleUtxos 855 =
     Inr \<lparr>selectedUtxos = [\<lparr>amt = 700, owner = ''1Sender'', txid = ''t1'', vout = 0\<rparr>,
                             \<lparr>amt = 200, owner = ''1Sender'', txid = ''t2'', vout = 0\<rparr>],
          signingAddresses = [''1Sender'', ''1Sender''], tokensIn = 900\<rparr>"
  by (simp add: selectUtxos_def exampleUtxos_def selectLoop.simps pickIndex_def spliceOut_def
        dadd_def dsub_def roundDouble_exact Let_def)

theorem selectUtxos_covers_or_fails_witness:
  "list_all (\<lambda>u. 0 \<le> amt u) exampleUtxos
   \<and> sum_list (map amt exampleUtxos) \<le> 2 ^ 53
   \<and> (\<exists>sel. selectUtxos exampleUtxos 855 = Inr sel
          \<and> tokensIn sel = 900
          \<and> sum_list (map amt (selectedUtxos sel)) = 900
          \<and> mset (selectedUtxos sel) \<subseteq># mset exampleUtxos)"
  using selectUtxos_covers_or_fails [where utxos = exampleUtxos and amountNeeded = 855]
  by (simp add: example_select_855) (simp add: exampleUtxos_def)

text \<open>
  Above \<open>2 ^ 53 = 9007199254740992\<close> the running total is rounded: \<open>2 ^ 53 + 3\<close> is no
  double, and the sum of \<open>2 ^ 53\<close> and 3 is \<open>2 ^ 53 + 4\<close>.
\<close>

lemma dadd_2_53_3: "dadd 9007199254740992 3 = 9007199254740996"
proof -
  have "ulp 9007199254740995 = 2"
    by (simp add: ulp_double ulp_small)
  then show ?thesis
    by (simp add: dadd_def roundDouble_def Let_def)
qed

text \<open>
  C1 as stated fails: of the UTXOs of \<open>2 ^ 53\<close> and 3 tokens, \<open>selectUtxos\<close> returns both
  for the amount needed \<open>2 ^ 53 + 4\<close>, with \<open>tokensIn = 2 ^ 53 + 4\<close>, although their
  amounts sum to \<open>2 ^ 53 + 3\<close>, less than the amount needed.
\<close>

theorem selectUtxos_rounded_total_counterexample:
  "selectUtxos [\<lparr>amt = 9007199254740992, owner = ''1Sender'', txid = ''t1'', vout = 0\<rparr>,
                \<lparr>amt = 3, owner = ''1Sender'', txid = ''t2'', vout = 0\<rparr>] 9007199254740996
     = Inr \<lparr>selectedUtxos = [\<lparr>amt = 9007199254740992, owner = ''1Sender'', txid = ''t1'', vout = 0\<rparr>,
                               \<lparr>amt = 3, owner = ''1Sender'', txid = ''t2'', vout = 0\<rparr>],
            signingAddresses = [''1Sender'', ''1Sender''], tokensIn = 9007199254740996\<rparr>
   \<and> sum_list (map amt [\<lparr>amt = 9007199254740992, owner = ''1Sender'', txid = ''t1'', vout = 0\<rparr>,
                          \<lparr>amt = 3, owner = ''1Sender'', txid = ''t2'', vout = 0\<rparr>])
       < 9007199254740996"
proof -
  have 1: "dsub 9007199254740996 0 = 9007199254740996"
  proof -
    have "ulp 9007199254740996 = 2"
      by (simp add: ulp_double ulp_small)
    then show ?thesis
      by (simp add: dsub_def roundDouble_def Let_def)
  qed
  have 2: "dadd 0 9007199254740992 = 9007199254740992"
    by (simp add: dadd_def roundDouble_exact)
  have 3: "dsub 9007199254740996 9007199254740992 = 4"
    by (simp add: dsub_def roundDouble_exact)
  show ?thesis
    by (simp add: selectUtxos_def selectLoop.simps pickIndex_def spliceOut_def 1 2 3
          dadd_2_53_3 Let_def)
qed

section \<open>Properties of the DER encoding\<close>

text \<open>
  \<open>derInteger\<close> collects what \<open>encodeDER\<close> checks of one component besides its length:
  not empty, leading byte without the sign bit, no needless leading zero byte.
\<close>

definition derInteger :: "byte list \<Rightarrow> bool" where
  "derInteger d = (d \<noteq> [] \<and> d ! 0 AND 0x80 = 0
      \<and> \<not> (length d > 1 \<and> d ! 0 = 0 \<and> \<not> (d ! 1 AND 0x80 \<noteq> 0)))"

lemma toDER_cases:
  "toDER b = [0] \<and> dropWhile (\<lambda>x. x = 0) b = []
   \<or> (\<exists>x xs. dropWhile (\<lambda>x. x = 0) b = x # xs \<and> x \<noteq> 0
         \<and> (if x AND 0x80 \<noteq> 0 then toDER b = 0 # x # xs else toDER b = x # xs))"
proof (cases "dropWhile (\<lambda>x. x = 0) b")
  case Nil
  then show ?thesis by (simp add: toDER_def)
next
  case (Cons x xs)
  then have "x \<noteq> 0"
    using hd_dropWhile [of "\<lambda>x. x = 0" b] by auto
  with Cons show ?thesis by (simp add: toDER_def)
qed

lemma toDER_derInteger: "derInteger (toDER b)"
  using toDER_cases [of b] by (auto simp: derInteger_def split: if_splits)

lemma length_toDER: "length (toDER b) \<le> Suc (length b)"
proof -
  have "length (dropWhile (\<lambda>x. x = 0) b) \<le> length b"
    by (rule length_dropWhile_le)
  then show ?thesis by (auto simp: toDER_def Let_def)
qed

lemma toDER_zeros: "set b \<subseteq> {0} \<Longrightarrow> toDER b = [0]"
proof -
  assume "set b \<subseteq> {0}"
  then have "dropWhile (\<lambda>x. x = 0) b = []" by auto
  then show ?thesis by (simp add: toDER_def)
qed

lemma encodeDER_ok:
  "derInteger r \<Longrightarrow> derInteger s \<Longrightarrow> length r \<le> 33 \<Longrightarrow> length s \<le> 33 \<Longrightarrow>
   encodeDER r s = Inr (derBytes r s)"
  by (auto simp: encodeDER_def derInteger_def Let_def)

lemma length_bufferFromHex: "length (bufferFromHex str) \<le> length str div 2"
  by (induction str rule: bufferFromHex.induct) (auto split: option.splits)

lemma unhex_minus: "unhex (CHR ''-'') = None"
  by (simp add: unhex_def)

lemma unhex_zero: "unhex (CHR ''0'') = Some 0"
  by (simp add: unhex_def)

lemma bufferFromHex_zeros_minus:
  "set (bufferFromHex (replicate k (CHR ''0'') @ CHR ''-'' # ds)) \<subseteq> {0}"
proof (induction k rule: induct_nat_012)
  case 0
  then show ?case by (cases ds) (simp_all add: unhex_minus)
next
  case 1
  then show ?case by (simp add: unhex_minus unhex_zero)
next
  case (ge2 n)
  then show ?case by (simp add: unhex_zero)
qed

lemma unhex_hexChar:
  assumes "d < 16"
  shows "unhex (hexChar d) = Some d"
proof -
  from assms have "d \<in> {0, 1, 2, 3, 4, 5, 6, 7, 8, 9, 10, 11, 12, 13, 14, 15}"
    by simp arith
  then show ?thesis
    by (auto simp: unhex_def hexChar_def)
qed

lemma unhex_less: "unhex c = Some d \<Longrightarrow> d < 16"
  by (auto simp: unhex_def Let_def split: if_splits)

lemma isHexDigit_hexChar: "d < 16 \<Longrightarrow> isHexDigit (hexChar d)"
  by (simp add: isHexDigit_def unhex_hexChar)

lemma hexDigits_all_hex: "list_all isHexDigit (hexDigits n)"
proof (induction n rule: hexDigits.induct)
  case (1 n)
  show ?case
  proof (cases "n < 16")
    case True
    then show ?thesis by (subst hexDigits.simps) (simp add: isHexDigit_hexChar)
  next
    case False
    then show ?thesis
      using 1 by (subst hexDigits.simps) (simp add: isHexDigit_hexChar)
  qed
qed

lemma length_hexDigits: "n < 16 ^ Suc k \<Longrightarrow> length (hexDigits n) \<le> Suc k"
proof (induction n arbitrary: k rule: hexDigits.induct)
  case (1 n)
  show ?case
  proof (cases "n < 16")
    case True
    then show ?thesis by (subst hexDigits.simps) simp
  next
    case False
    then obtain j where k: "k = Suc j"
      using "1.prems" by (cases k) auto
    with "1.prems" have "n div 16 < 16 ^ Suc j"
      by (simp add: less_mult_imp_div_less)
    from "1.IH" [OF False this] False k show ?thesis
      by (subst hexDigits.simps) simp
  qed
qed

definition hexStep :: "nat \<Rightarrow> char \<Rightarrow> nat" where
  "hexStep a c = 16 * a + (case unhex c of Some d \<Rightarrow> d | None \<Rightarrow> 0)"

lemma hexValue_alt: "hexValue str = foldl hexStep 0 str"
  by (simp add: hexValue_def hexStep_def [abs_def])

lemma hexValue_snoc: "hexValue (str @ [c]) = hexStep (hexValue str) c"
  by (simp add: hexValue_alt)

lemma hexValue_hexDigits: "hexValue (hexDigits n) = n"
proof (induction n rule: hexDigits.induct)
  case (1 n)
  show ?case
  proof (cases "n < 16")
    case True
    then show ?thesis
      by (subst hexDigits.simps) (simp add: hexValue_alt hexStep_def unhex_hexChar)
  next
    case False
    then show ?thesis
      using 1 by (subst hexDigits.simps) (simp add: hexValue_snoc hexStep_def unhex_hexChar)
  qed
qed

lemma foldl_hexStep_bound:
  "list_all isHexDigit str \<Longrightarrow> foldl hexStep a str < (a + 1) * 16 ^ length str"
proof (induction str arbitrary: a)
  case Nil
  then show ?case by simp
next
  case (Cons c str)
  then obtain d where d: "unhex c = Some d" "d < 16"
    by (auto simp: isHexDigit_def dest: unhex_less)
  from Cons have A: "foldl hexStep (hexStep a c) str < (hexStep a c + 1) * 16 ^ length str"
    by simp
  have "hexStep a c + 1 \<le> (a + 1) * 16"
    using d by (simp add: hexStep_def)
  then have "(hexStep a c + 1) * 16 ^ length str \<le> ((a + 1) * 16) * 16 ^ length str"
    by (rule mult_le_mono1)
  with A have "foldl hexStep (hexStep a c) str < ((a + 1) * 16) * 16 ^ length str"
    by (rule less_le_trans)
  then show ?case
    by (simp add: algebra_simps)
qed


lemma hexValue_bound: "list_all isHexDigit str \<Longrightarrow> hexValue str < 16 ^ length str"
  using foldl_hexStep_bound [of str 0] by (simp add: hexValue_alt)

lemma hexValue_zeros: "foldl hexStep 0 (replicate k (CHR ''0'') @ str) = foldl hexStep 0 str"
  by (induction k) (simp_all add: hexStep_def unhex_zero)

lemma bytes_of_hex:
  "list_all isHexDigit str \<Longrightarrow> even (length str) \<Longrightarrow>
   foldl (\<lambda>a b. 256 * a + unat b) a (bufferFromHex str) = foldl hexStep a str"
proof (induction str arbitrary: a rule: bufferFromHex.induct)
  case (1 c1 c2 rest)
  from "1.prems" obtain x y where xy: "unhex c1 = Some x" "unhex c2 = Some y"
    by (auto simp: isHexDigit_def)
  then have lt: "x < 16" "y < 16"
    by (auto dest: unhex_less)
  from lt have "16 * x + y < 256" by simp
  then have u: "unat (word_of_nat (16 * x + y) :: byte) = 16 * x + y"
    by (intro of_nat_inverse) simp_all
  from "1.prems" have "list_all isHexDigit rest" "even (length rest)"
    by simp_all
  from "1.IH" [OF refl xy(1) xy(2) this]
  have "foldl (\<lambda>a b. 256 * a + unat b) (256 * a + (16 * x + y)) (bufferFromHex rest)
        = foldl hexStep (256 * a + (16 * x + y)) rest" .
  moreover have "hexStep (hexStep a c1) c2 = 256 * a + (16 * x + y)"
    using xy by (simp add: hexStep_def)
  ultimately show ?case
    using xy u by simp
qed simp_all

lemma not_ws_hex: "isHexDigit c \<Longrightarrow> \<not> isWhiteSpace c"
  by (auto simp: isHexDigit_def isWhiteSpace_def unhex_def Let_def split: if_splits)

lemma parseBigIntHex_hex:
  assumes "str \<noteq> []" "list_all isHexDigit str"
  shows "parseBigIntHex str = Some (int (hexValue str))"
proof -
  have "isHexDigit (last str)"
    using assms by (simp add: list_all_iff)
  then have "\<not> isWhiteSpace (hd (rev str))"
    using assms(1) by (simp add: hd_rev not_ws_hex)
  then have "dropWhile isWhiteSpace (rev str) = rev str"
    using assms(1) by (cases "rev str") auto
  then show ?thesis
    using assms by (simp add: parseBigIntHex_def)
qed

lemma isHexDigit_zero: "isHexDigit (CHR ''0'')"
  by (simp add: isHexDigit_def unhex_zero)

lemma padded_digits:
  assumes "n < 16 ^ 64"
  shows "length (padStart 64 (CHR ''0'') (hexDigits n)) = 64"
    and "list_all isHexDigit (padStart 64 (CHR ''0'') (hexDigits n))"
    and "foldl hexStep 0 (padStart 64 (CHR ''0'') (hexDigits n)) = n"
proof -
  have "n < 16 ^ Suc 63" using assms by simp
  then have "length (hexDigits n) \<le> Suc 63" by (rule length_hexDigits)
  then show "length (padStart 64 (CHR ''0'') (hexDigits n)) = 64"
    by (simp add: padStart_def)
  show "list_all isHexDigit (padStart 64 (CHR ''0'') (hexDigits n))"
    using hexDigits_all_hex [of n] by (auto simp: padStart_def list_all_iff isHexDigit_zero)
  show "foldl hexStep 0 (padStart 64 (CHR ''0'') (hexDigits n)) = n"
    using hexValue_hexDigits [of n] by (simp only: padStart_def hexValue_zeros hexValue_alt)
qed

lemma bigIntToBuffer_nonneg:
  assumes "0 \<le> x" "x < 16 ^ 64"
  shows "length (bigIntToBuffer x) \<le> 32" and "int (bytesToNat (bigIntToBuffer x)) = x"
proof -
  have n: "nat x < 16 ^ 64" using assms by (simp add: nat_less_iff)
  have ts: "toString16 x = hexDigits (nat x)" using assms by (simp add: toString16_def)
  have "length (bigIntToBuffer x) \<le> length (padStart 64 (CHR ''0'') (hexDigits (nat x))) div 2"
    unfolding bigIntToBuffer_def ts by (rule length_bufferFromHex)
  then show "length (bigIntToBuffer x) \<le> 32"
    by (simp add: padded_digits(1) [OF n])
  have "bytesToNat (bigIntToBuffer x) = foldl hexStep 0 (padStart 64 (CHR ''0'') (hexDigits (nat x)))"
    unfolding bigIntToBuffer_def ts bytesToNat_def
    by (rule bytes_of_hex) (simp_all add: padded_digits [OF n])
  then show "int (bytesToNat (bigIntToBuffer x)) = x"
    using assms by (simp add: padded_digits(3) [OF n])
qed

lemma bigIntToBuffer_neg:
  assumes "x < 0"
  shows "set (bigIntToBuffer x) \<subseteq> {0}"
proof -
  have "padStart 64 (CHR ''0'') (toString16 x)
        = replicate (64 - length (toString16 x)) (CHR ''0'') @ CHR ''-'' # hexDigits (nat (- x))"
    using assms by (simp add: padStart_def toString16_def)
  then show ?thesis
    unfolding bigIntToBuffer_def by (simp only: bufferFromHex_zeros_minus)
qed

lemma bytesToNat_strip: "bytesToNat (dropWhile (\<lambda>b. b = 0) bs) = bytesToNat bs"
  by (induction bs) (simp_all add: bytesToNat_def)

lemma bytesToNat_toDER: "bytesToNat (toDER b) = bytesToNat b"
proof -
  from toDER_cases [of b]
  have "bytesToNat (toDER b) = bytesToNat (dropWhile (\<lambda>b. b = 0) b)"
  proof (elim disjE conjE exE)
    assume a: "toDER b = [0]" and d: "dropWhile (\<lambda>x. x = 0) b = []"
    show ?thesis unfolding a d by (simp add: bytesToNat_def)
  next
    fix x xs
    assume "dropWhile (\<lambda>x. x = 0) b = x # xs"
      and "if x AND 0x80 \<noteq> 0 then toDER b = 0 # x # xs else toDER b = x # xs"
    then show ?thesis by (simp add: bytesToNat_def split: if_splits)
  qed
  then show ?thesis by (simp add: bytesToNat_strip)
qed

lemma halfN_bound: "halfN < 16 ^ 64" "0 \<le> halfN"
  by (simp_all add: halfN_def curveN_def)

lemma normalizeS_le: "normalizeS s \<le> halfN"
  by (simp add: normalizeS_def halfN_def curveN_def)

lemma normalizeS_nonneg: "0 \<le> s \<Longrightarrow> s \<le> curveN \<Longrightarrow> 0 \<le> normalizeS s"
  by (simp add: normalizeS_def)

lemma processedS_ok:
  "derInteger (toDER (bigIntToBuffer (normalizeS s)))"
  "length (toDER (bigIntToBuffer (normalizeS s))) \<le> 33"
  "int (bytesToNat (toDER (bigIntToBuffer (normalizeS s)))) \<le> halfN"
proof -
  show "derInteger (toDER (bigIntToBuffer (normalizeS s)))"
    by (rule toDER_derInteger)
  show "length (toDER (bigIntToBuffer (normalizeS s))) \<le> 33"
  proof (cases "normalizeS s < 0")
    case True
    then show ?thesis
      by (simp add: toDER_zeros [OF bigIntToBuffer_neg])
  next
    case False
    then have "length (bigIntToBuffer (normalizeS s)) \<le> 32"
      using normalizeS_le [of s] halfN_bound by (intro bigIntToBuffer_nonneg) simp_all
    then show ?thesis
      using length_toDER [of "bigIntToBuffer (normalizeS s)"] by simp
  qed
  show "int (bytesToNat (toDER (bigIntToBuffer (normalizeS s)))) \<le> halfN"
  proof (cases "normalizeS s < 0")
    case True
    then show ?thesis
      using halfN_bound by (simp add: toDER_zeros [OF bigIntToBuffer_neg] bytesToNat_def)
  next
    case False
    then have "int (bytesToNat (bigIntToBuffer (normalizeS s))) = normalizeS s"
      using normalizeS_le [of s] halfN_bound by (intro bigIntToBuffer_nonneg) simp_all
    then show ?thesis
      using normalizeS_le [of s] by (simp add: bytesToNat_toDER)
  qed
qed

lemma processedS_value:
  assumes "0 \<le> normalizeS s"
  shows "int (bytesToNat (toDER (bigIntToBuffer (normalizeS s)))) = normalizeS s"
proof -
  have "int (bytesToNat (bigIntToBuffer (normalizeS s))) = normalizeS s"
    using assms normalizeS_le [of s] halfN_bound by (intro bigIntToBuffer_nonneg) simp_all
  then show ?thesis by (simp add: bytesToNat_toDER)
qed

lemma createDERSignature_result:
  assumes "parseBigIntHex (sig_r signature) = Some r" "parseBigIntHex (sig_s signature) = Some s"
  shows "createDERSignature signature sigHashType =
     (if length (toDER (bigIntToBuffer r)) > 33 then Inl RLengthTooLong
      else Inr (toHex (derBytes (toDER (bigIntToBuffer r)) (toDER (bigIntToBuffer (normalizeS s))))
                @ padStart 2 (CHR ''0'') (toString16 sigHashType)))"
proof (cases "length (toDER (bigIntToBuffer r)) > 33")
  case True
  have "toDER (bigIntToBuffer r) \<noteq> []" "toDER (bigIntToBuffer (normalizeS s)) \<noteq> []"
    using toDER_derInteger by (auto simp: derInteger_def)
  then have "encodeDER (toDER (bigIntToBuffer r)) (toDER (bigIntToBuffer (normalizeS s))) = Inl RLengthTooLong"
    using True by (simp add: encodeDER_def Let_def)
  then show ?thesis
    using assms True by (simp add: createDERSignature_def Let_def)
next
  case False
  then have "encodeDER (toDER (bigIntToBuffer r)) (toDER (bigIntToBuffer (normalizeS s)))
     = Inr (derBytes (toDER (bigIntToBuffer r)) (toDER (bigIntToBuffer (normalizeS s))))"
    by (intro encodeDER_ok toDER_derInteger processedS_ok) simp
  then show ?thesis
    using assms False by (simp add: createDERSignature_def Let_def)
qed

section \<open>Low-S form and totality of the signature encoding\<close>

lemma replicate_numeral: "replicate (numeral k) x = x # replicate (pred_numeral k) x"
  by (simp add: numeral_eq_Suc)

lemma parseBigIntHex_nonneg: "parseBigIntHex str = Some x \<Longrightarrow> 0 \<le> x"
  by (auto simp: parseBigIntHex_def Let_def split: if_splits)

lemma toDER_bigInt_zero: "toDER (bigIntToBuffer 0) = [0]"
  by (simp add: bigIntToBuffer_def toString16_def hexDigits.simps padStart_def hexChar_def
        unhex_def replicate_numeral toDER_def)

lemma toDER_bigInt_one: "toDER (bigIntToBuffer 1) = [1]"
  by (simp add: bigIntToBuffer_def toString16_def hexDigits.simps padStart_def hexChar_def
        unhex_def replicate_numeral toDER_def)

text \<open>
  C2.  Whenever \<open>createDERSignature\<close> returns, its result is the hex of the DER sequence
  of the two processed components followed by the sighash byte, and the number held by the
  encoded s component is at most \<open>n div 2\<close>, for \<open>n\<close> the order of secp256k1.  The
  value handed to the encoder is \<open>n - s\<close> when the input \<open>s\<close> exceeds \<open>n div 2\<close> and
  \<open>s\<close> itself otherwise; for every \<open>s\<close> up to \<open>n\<close> the encoded component holds exactly
  that value.
\<close>

theorem createDERSignature_low_s:
  assumes "createDERSignature signature sigHashType = Inr out"
  shows "\<exists>r s S.
           parseBigIntHex (sig_r signature) = Some r
         \<and> parseBigIntHex (sig_s signature) = Some s
         \<and> S = toDER (bigIntToBuffer (normalizeS s))
         \<and> out = toHex (derBytes (toDER (bigIntToBuffer r)) S)
                   @ padStart 2 (CHR ''0'') (toString16 sigHashType)
         \<and> int (bytesToNat S) \<le> halfN
         \<and> (if s > halfN then normalizeS s = curveN - s else normalizeS s = s)
         \<and> (s \<le> curveN \<longrightarrow> int (bytesToNat S) = normalizeS s)"
proof -
  from assms obtain r where r: "parseBigIntHex (sig_r signature) = Some r"
    by (auto simp: createDERSignature_def split: option.splits)
  from assms r obtain s where s: "parseBigIntHex (sig_s signature) = Some s"
    by (auto simp: createDERSignature_def split: option.splits)
  have out: "out = toHex (derBytes (toDER (bigIntToBuffer r)) (toDER (bigIntToBuffer (normalizeS s))))
               @ padStart 2 (CHR ''0'') (toString16 sigHashType)"
    using assms createDERSignature_result [OF r s, of sigHashType] by (simp split: if_splits)
  have le: "int (bytesToNat (toDER (bigIntToBuffer (normalizeS s)))) \<le> halfN"
    by (rule processedS_ok)
  have rule: "if s > halfN then normalizeS s = curveN - s else normalizeS s = s"
    by (simp add: normalizeS_def)
  have "0 \<le> s"
    using s by (rule parseBigIntHex_nonneg)
  then have v: "s \<le> curveN \<longrightarrow> int (bytesToNat (toDER (bigIntToBuffer (normalizeS s)))) = normalizeS s"
    by (auto intro: processedS_value normalizeS_nonneg)
  from r s out le rule v show ?thesis
    by blast
qed

theorem createDERSignature_low_s_witness:
  "createDERSignature
     \<lparr>sig_r = ''1'',
      sig_s = ''fffffffffffffffffffffffffffffffebaaedce6af48a03bbfd25e8cd0364140'',
      sig_v = 0, pubKey = ''02''\<rparr> 65 = Inr ''300602010102010141''
   \<and> normalizeS (curveN - 1) = 1
   \<and> int (bytesToNat (toDER (bigIntToBuffer (normalizeS (curveN - 1))))) = 1"
proof -
  let ?sig = "\<lparr>sig_r = ''1'',
      sig_s = ''fffffffffffffffffffffffffffffffebaaedce6af48a03bbfd25e8cd0364140'',
      sig_v = 0, pubKey = ''02''\<rparr>"
  have r: "parseBigIntHex (sig_r ?sig) = Some 1"
    by (simp add: parseBigIntHex_def hexValue_def unhex_def isHexDigit_def isWhiteSpace_def)
  have s: "parseBigIntHex (sig_s ?sig) = Some (curveN - 1)"
    by (simp add: parseBigIntHex_def hexValue_def unhex_def isHexDigit_def isWhiteSpace_def
          curveN_def)
  have n: "normalizeS (curveN - 1) = 1"
    by (simp add: normalizeS_def halfN_def curveN_def)
  have h: "toHex (derBytes [1] [1]) @ padStart 2 (CHR ''0'') (toString16 65) = ''300602010102010141''"
    by (simp add: toHex_def derBytes_def byteHex_def hexChar_def padStart_def toString16_def
          hexDigits.simps)
  have e: "createDERSignature ?sig 65 = Inr ''300602010102010141''"
    using createDERSignature_result [OF r s, of 65] by (simp add: n toDER_bigInt_one h)
  from createDERSignature_low_s [OF e] s
  have "int (bytesToNat (toDER (bigIntToBuffer (normalizeS (curveN - 1))))) = normalizeS (curveN - 1)"
    by auto
  with e n show ?thesis by simp
qed

text \<open>
  The empty string is not a hex string: on it \<open>BigInt('0x')\<close> raises a SyntaxError.
\<close>

lemma createDERSignature_empty_r:
  "createDERSignature \<lparr>sig_r = [], sig_s = s, sig_v = v, pubKey = k\<rparr> sigHashType = Inl SyntaxError"
  by (simp add: createDERSignature_def parseBigIntHex_def)

text \<open>
  C10.  For every signature whose \<open>r\<close> and \<open>s\<close> fields are hex strings of at most 64
  digits, and every sighash type, \<open>createDERSignature\<close> returns: both fields parse, the two
  components that \<open>toDER\<close> produces pass every check of \<open>encodeDER\<close>, and the result is
  the hex of the DER sequence followed by the sighash byte.  A zero \<open>r\<close> or \<open>s\<close> is
  encoded as the single byte zero.
\<close>

theorem createDERSignature_never_throws:
  assumes "hexString (sig_r signature)" "length (sig_r signature) \<le> 64"
      and "hexString (sig_s signature)" "length (sig_s signature) \<le> 64"
  shows "\<exists>r s R S.
           parseBigIntHex (sig_r signature) = Some r
         \<and> parseBigIntHex (sig_s signature) = Some s
         \<and> R = toDER (bigIntToBuffer r)
         \<and> S = toDER (bigIntToBuffer (normalizeS s))
         \<and> encodeDER R S = Inr (derBytes R S)
         \<and> createDERSignature signature sigHashType
             = Inr (toHex (derBytes R S) @ padStart 2 (CHR ''0'') (toString16 sigHashType))
         \<and> (r = 0 \<longrightarrow> R = [0])
         \<and> (s = 0 \<longrightarrow> S = [0])"
proof -
  let ?r = "int (hexValue (sig_r signature))" and ?s = "int (hexValue (sig_s signature))"
  let ?R = "toDER (bigIntToBuffer ?r)" and ?S = "toDER (bigIntToBuffer (normalizeS ?s))"
  have r: "parseBigIntHex (sig_r signature) = Some ?r"
    and s: "parseBigIntHex (sig_s signature) = Some ?s"
    using assms by (simp_all add: hexString_def parseBigIntHex_hex)
  have "hexValue (sig_r signature) < 16 ^ length (sig_r signature)"
    using assms(1) by (simp add: hexString_def hexValue_bound)
  also have "\<dots> \<le> 16 ^ 64"
    using assms(2) by (intro power_increasing) simp_all
  finally have "?r < 16 ^ 64"
    by (simp add: nat_less_iff flip: of_nat_less_iff)
  then have "length (bigIntToBuffer ?r) \<le> 32"
    by (intro bigIntToBuffer_nonneg) simp_all
  then have lenR: "length ?R \<le> 33"
    using length_toDER [of "bigIntToBuffer ?r"] by simp
  then have enc: "encodeDER ?R ?S = Inr (derBytes ?R ?S)"
    by (intro encodeDER_ok toDER_derInteger processedS_ok)
  have res: "createDERSignature signature sigHashType
      = Inr (toHex (derBytes ?R ?S) @ padStart 2 (CHR ''0'') (toString16 sigHashType))"
    using createDERSignature_result [OF r s, of sigHashType] lenR by simp
  have zr: "?r = 0 \<longrightarrow> ?R = [0]"
    by (simp add: toDER_bigInt_zero)
  have zs: "?s = 0 \<longrightarrow> ?S = [0]"
    using halfN_bound(2) by (simp add: normalizeS_def toDER_bigInt_zero)
  from r s enc res zr zs show ?thesis
    by blast
qed

theorem createDERSignature_never_throws_witness:
  "hexString ''0'' \<and> length ''0'' \<le> (64 :: nat)
   \<and> createDERSignature \<lparr>sig_r = ''0'', sig_s = ''0'', sig_v = 0, pubKey = ''02''\<rparr> 65
       = Inr ''300602010002010041''"
proof -
  let ?sig = "\<lparr>sig_r = ''0'', sig_s = ''0'', sig_v = 0, pubKey = ''02''\<rparr>"
  have hx: "hexString ''0''"
    by (simp add: hexString_def isHexDigit_def unhex_def)
  have p: "parseBigIntHex ''0'' = Some 0"
    by (simp add: parseBigIntHex_def hexValue_def unhex_def isHexDigit_def isWhiteSpace_def)
  have h: "toHex (derBytes [0] [0]) @ padStart 2 (CHR ''0'') (toString16 65) = ''300602010002010041''"
    by (simp add: toHex_def derBytes_def byteHex_def hexChar_def padStart_def toString16_def
          hexDigits.simps)
  from createDERSignature_never_throws [of ?sig 65] hx p
  have "createDERSignature ?sig 65 = Inr (toHex (derBytes [0] [0]) @ padStart 2 (CHR ''0'') (toString16 65))"
    by auto
  with hx h show ?thesis by simp
qed

section \<open>Properties of the batched signing\<close>

lemma unat_byte_parts: "word_of_nat (16 * (unat b div 16) + unat b mod 16) = (b :: byte)"
  by simp



lemma mapE_cong: "(\<And>x. x \<in> set xs \<Longrightarrow> f x = g x) \<Longrightarrow> mapE f xs = mapE g xs"
proof (induction xs)
  case Nil
  then show ?case by simp
next
  case (Cons a xs)
  then have "f a = g a" "mapE f xs = mapE g xs"
    by simp_all
  then show ?case by (simp split: sum.splits)
qed


lemma find_distinct_key:
  assumes "distinct (map f xs)" "set xs = set ys"
  shows "find (\<lambda>m. f m = k) xs = find (\<lambda>m. f m = k) ys"
proof (cases "find (\<lambda>m. f m = k) xs")
  case None
  then have "\<not> (\<exists>m \<in> set ys. f m = k)"
    using assms(2) by (auto simp: find_None_iff)
  then have "find (\<lambda>m. f m = k) ys = None"
    by (simp add: find_None_iff)
  with None show ?thesis by simp
next
  case (Some x)
  then have x: "x \<in> set xs" "f x = k"
    by (auto simp: find_Some_iff)
  then have "\<exists>m \<in> set ys. f m = k"
    using assms(2) by auto
  then obtain y where y: "find (\<lambda>m. f m = k) ys = Some y"
    by (cases "find (\<lambda>m. f m = k) ys") (auto simp: find_None_iff)
  then have "y \<in> set xs" "f y = k"
    using assms(2) by (auto simp: find_Some_iff)
  moreover have "inj_on f (set xs)"
    using assms(1) by (simp add: distinct_map)
  ultimately have "x = y"
    using x by (auto dest: inj_onD)
  with Some y show ?thesis by simp
qed

lemma mapE_first_error:
  assumes "x \<in> set xs" "f x = Inl e"
  shows "\<exists>y e'. y \<in> set xs \<and> f y = Inl e' \<and> mapE f xs = Inl e'"
  using assms by (induction xs) (auto split: sum.splits)






lemma matchSignature_perm:
  assumes "distinct (map signed_content msgs)" "mset msgs' = mset msgs"
  shows "matchSignature sha256 msgs' h = matchSignature sha256 msgs h"
proof -
  have "set msgs = set msgs'"
    using assms(2) by (metis set_mset_mset)
  then have "find (\<lambda>m. signed_content m = doubleHashHex sha256 (hash h)) msgs
           = find (\<lambda>m. signed_content m = doubleHashHex sha256 (hash h)) msgs'"
    using assms(1) by (intro find_distinct_key)
  then show ?thesis by (simp add: matchSignature_def)
qed

lemma matchSignature_found:
  assumes "\<exists>m \<in> set msgs. signed_content m = doubleHashHex sha256 (hash h)"
  shows "\<exists>m \<in> set msgs. signed_content m = doubleHashHex sha256 (hash h)
           \<and> matchSignature sha256 msgs h
               = Inr (inputIndex h, \<lparr>sig_r = signed_r m, sig_s = signed_s m, sig_v = signed_v m,
                                     pubKey = signed_publicKey m\<rparr>)"
proof (cases "find (\<lambda>m. signed_content m = doubleHashHex sha256 (hash h)) msgs")
  case None
  with assms show ?thesis by (auto simp: find_None_iff)
next
  case (Some m)
  then have "m \<in> set msgs" "signed_content m = doubleHashHex sha256 (hash h)"
    by (auto simp: find_Some_iff)
  with Some show ?thesis by (auto simp: matchSignature_def)
qed

lemma matchSignature_missing:
  assumes "\<forall>m \<in> set msgs. signed_content m \<noteq> doubleHashHex sha256 (hash h)"
  shows "matchSignature sha256 msgs h = Inl (NoMatchingSignature (inputIndex h))"
proof -
  have "find (\<lambda>m. signed_content m = doubleHashHex sha256 (hash h)) msgs = None"
    using assms by (simp add: find_None_iff)
  then show ?thesis by (simp add: matchSignature_def)
qed

lemma matchSignature_error:
  "matchSignature sha256 msgs h = Inl e \<Longrightarrow>
   e = NoMatchingSignature (inputIndex h)
   \<and> (\<forall>m \<in> set msgs. signed_content m \<noteq> doubleHashHex sha256 (hash h))"
  by (auto simp: matchSignature_def find_None_iff split: option.splits)

lemma mapE_all_ok:
  assumes "\<forall>x \<in> set xs. \<exists>y. f x = Inr y"
  shows "\<exists>ys. mapE f xs = Inr ys \<and> length ys = length xs \<and> (\<forall>k < length xs. f (xs ! k) = Inr (ys ! k))"
  using assms
proof (induction xs)
  case Nil
  then show ?case by simp
next
  case (Cons x xs)
  then obtain y ys where y: "f x = Inr y"
    and ys: "mapE f xs = Inr ys" "length ys = length xs" "\<forall>k < length xs. f (xs ! k) = Inr (ys ! k)"
    by auto
  have "\<forall>k < length (x # xs). f ((x # xs) ! k) = Inr ((y # ys) ! k)"
    using y ys(3) by (auto simp: nth_Cons split: nat.splits)
  with y ys show ?case by auto
qed

lemma signMultipleHashes_response:
  assumes "vaultAccountId \<noteq> []"
      and "client vaultAccountId (prepareMessages sha256 hs) = Inr (Some msgs)" "msgs \<noteq> []"
  shows "fst (signMultipleHashes sha256 client hs vaultAccountId) = mapE (matchSignature sha256 msgs) hs"
  using assms by (simp add: signMultipleHashes_def Let_def)

text \<open>
  C4 (as amended).  A response without signed messages raises the no-signed-messages
  error.  For a response with at least one message, the result is decided by content alone:
  each input gets the signature of a returned message whose content equals the input's
  second hash; if some input has no such message, the could-not-find-matching-signature
  error of an unmatched input is raised; and when the contents of the returned messages are
  pairwise distinct, every permutation of the response gives the same result.
\<close>

theorem signMultipleHashes_matches_by_content:
  assumes "vaultAccountId \<noteq> []"
      and "client vaultAccountId (prepareMessages sha256 hs) = Inr resp"
  shows "(resp = None \<or> resp = Some [] \<longrightarrow>
            fst (signMultipleHashes sha256 client hs vaultAccountId) = Inl NoSignedMessages)
       \<and> (\<forall>msgs. resp = Some msgs \<and> msgs \<noteq> [] \<longrightarrow>
            fst (signMultipleHashes sha256 client hs vaultAccountId)
              = mapE (matchSignature sha256 msgs) hs
          \<and> ((\<forall>h \<in> set hs. \<exists>m \<in> set msgs. signed_content m = doubleHashHex sha256 (hash h)) \<longrightarrow>
               (\<exists>rs. mapE (matchSignature sha256 msgs) hs = Inr rs
                  \<and> length rs = length hs
                  \<and> (\<forall>k < length hs. \<exists>m \<in> set msgs.
                        signed_content m = doubleHashHex sha256 (hash (hs ! k))
                      \<and> rs ! k = (inputIndex (hs ! k),
                                   \<lparr>sig_r = signed_r m, sig_s = signed_s m, sig_v = signed_v m,
                                    pubKey = signed_publicKey m\<rparr>))))
          \<and> ((\<exists>h \<in> set hs. \<forall>m \<in> set msgs. signed_content m \<noteq> doubleHashHex sha256 (hash h)) \<longrightarrow>
               (\<exists>h \<in> set hs. (\<forall>m \<in> set msgs. signed_content m \<noteq> doubleHashHex sha256 (hash h))
                  \<and> mapE (matchSignature sha256 msgs) hs = Inl (NoMatchingSignature (inputIndex h))))
          \<and> (distinct (map signed_content msgs) \<longrightarrow>
               (\<forall>msgs'. mset msgs' = mset msgs \<longrightarrow>
                  mapE (matchSignature sha256 msgs') hs = mapE (matchSignature sha256 msgs) hs)))"
proof (intro conjI allI impI)
  assume "resp = None \<or> resp = Some []"
  then show "fst (signMultipleHashes sha256 client hs vaultAccountId) = Inl NoSignedMessages"
    using assms by (auto simp: signMultipleHashes_def Let_def)
next
  fix msgs :: "SignedMessage list"
  assume "resp = Some msgs \<and> msgs \<noteq> []"
  then show "fst (signMultipleHashes sha256 client hs vaultAccountId)
              = mapE (matchSignature sha256 msgs) hs"
    using assms by (intro signMultipleHashes_response) simp_all
next
  fix msgs :: "SignedMessage list"
  assume all: "\<forall>h \<in> set hs. \<exists>m \<in> set msgs. signed_content m = doubleHashHex sha256 (hash h)"
  then have "\<forall>h \<in> set hs. \<exists>y. matchSignature sha256 msgs h = Inr y"
    using matchSignature_found [of msgs sha256] by blast
  from mapE_all_ok [OF this] obtain rs where rs: "mapE (matchSignature sha256 msgs) hs = Inr rs"
    "length rs = length hs" "\<forall>k < length hs. matchSignature sha256 msgs (hs ! k) = Inr (rs ! k)"
    by blast
  have "\<forall>k < length hs. \<exists>m \<in> set msgs.
                        signed_content m = doubleHashHex sha256 (hash (hs ! k))
                      \<and> rs ! k = (inputIndex (hs ! k),
                                   \<lparr>sig_r = signed_r m, sig_s = signed_s m, sig_v = signed_v m,
                                    pubKey = signed_publicKey m\<rparr>)"
  proof (intro allI impI)
    fix k assume k: "k < length hs"
    then have "\<exists>m \<in> set msgs. signed_content m = doubleHashHex sha256 (hash (hs ! k))"
      using all by simp
    from matchSignature_found [OF this] rs(3) k show "\<exists>m \<in> set msgs.
                        signed_content m = doubleHashHex sha256 (hash (hs ! k))
                      \<and> rs ! k = (inputIndex (hs ! k),
                                   \<lparr>sig_r = signed_r m, sig_s = signed_s m, sig_v = signed_v m,
                                    pubKey = signed_publicKey m\<rparr>)"
      by auto
  qed
  with rs show "\<exists>rs. mapE (matchSignature sha256 msgs) hs = Inr rs
                  \<and> length rs = length hs
                  \<and> (\<forall>k < length hs. \<exists>m \<in> set msgs.
                        signed_content m = doubleHashHex sha256 (hash (hs ! k))
                      \<and> rs ! k = (inputIndex (hs ! k),
                                   \<lparr>sig_r = signed_r m, sig_s = signed_s m, sig_v = signed_v m,
                                    pubKey = signed_publicKey m\<rparr>))"
    by blast
next
  fix msgs :: "SignedMessage list"
  assume "\<exists>h \<in> set hs. \<forall>m \<in> set msgs. signed_content m \<noteq> doubleHashHex sha256 (hash h)"
  then obtain h where "h \<in> set hs" "matchSignature sha256 msgs h = Inl (NoMatchingSignature (inputIndex h))"
    using matchSignature_missing by blast
  from mapE_first_error [of h hs "matchSignature sha256 msgs", OF this] obtain y e where
    "y \<in> set hs" "matchSignature sha256 msgs y = Inl e" "mapE (matchSignature sha256 msgs) hs = Inl e"
    by blast
  then show "\<exists>h \<in> set hs. (\<forall>m \<in> set msgs. signed_content m \<noteq> doubleHashHex sha256 (hash h))
                  \<and> mapE (matchSignature sha256 msgs) hs = Inl (NoMatchingSignature (inputIndex h))"
    using matchSignature_error [of sha256 msgs y e] by blast
next
  fix msgs msgs' :: "SignedMessage list"
  assume "distinct (map signed_content msgs)" "mset msgs' = mset msgs"
  then show "mapE (matchSignature sha256 msgs') hs = mapE (matchSignature sha256 msgs) hs"
    by (intro mapE_cong matchSignature_perm)
qed

theorem signMultipleHashes_matches_by_content_witness:
  "fst (signMultipleHashes (\<lambda>b. b @ [1])
          (\<lambda>v ms. Inr (Some
             [\<lparr>signed_content = ''0201'', signed_r = ''2b'', signed_s = ''2c'', signed_v = 1,
               signed_publicKey = ''03''\<rparr>,
              \<lparr>signed_content = ''0101'', signed_r = ''1b'', signed_s = ''1c'', signed_v = 0,
               signed_publicKey = ''02''\<rparr>]))
          [\<lparr>hash = [1], inputIndex = 0, hw_sigHashType = 193, hw_bip44AddressIndex = None\<rparr>,
           \<lparr>hash = [2], inputIndex = 1, hw_sigHashType = 193, hw_bip44AddressIndex = None\<rparr>]
          ''7'')
   = Inr [(0, \<lparr>sig_r = ''1b'', sig_s = ''1c'', sig_v = 0, pubKey = ''02''\<rparr>),
          (1, \<lparr>sig_r = ''2b'', sig_s = ''2c'', sig_v = 1, pubKey = ''03''\<rparr>)]"
proof -
  let ?msgs = "[\<lparr>signed_content = ''0201'', signed_r = ''2b'', signed_s = ''2c'', signed_v = 1,
               signed_publicKey = ''03''\<rparr>,
              \<lparr>signed_content = ''0101'', signed_r = ''1b'', signed_s = ''1c'', signed_v = 0,
               signed_publicKey = ''02''\<rparr>]"
  let ?hs = "[\<lparr>hash = [1], inputIndex = 0, hw_sigHashType = 193, hw_bip44AddressIndex = None\<rparr>,
           \<lparr>hash = [2], inputIndex = 1, hw_sigHashType = 193, hw_bip44AddressIndex = None\<rparr>]"
  have "''7'' \<noteq> []"
    and "(\<lambda>v ms. Inr (Some ?msgs)) ''7'' (prepareMessages (\<lambda>b. b @ [1]) ?hs) = Inr (Some ?msgs)"
    by simp_all
  from signMultipleHashes_matches_by_content [OF this]
  have "fst (signMultipleHashes (\<lambda>b. b @ [1]) (\<lambda>v ms. Inr (Some ?msgs)) ?hs ''7'')
          = mapE (matchSignature (\<lambda>b. b @ [1]) ?msgs) ?hs"
    by simp
  also have "\<dots> = Inr [(0, \<lparr>sig_r = ''1b'', sig_s = ''1c'', sig_v = 0, pubKey = ''02''\<rparr>),
          (1, \<lparr>sig_r = ''2b'', sig_s = ''2c'', sig_v = 1, pubKey = ''03''\<rparr>)]"
    by (simp add: matchSignature_def doubleHashHex_def doubleHash_def toHex_def byteHex_def
          hexChar_def)
  finally show ?thesis .
qed

text \<open>
  C4 as stated fails twice.  Two returned messages with the same content and different
  signatures are assigned by position: swapping them changes the signature given to the
  input.  And an input whose second hash is in no returned message, because the response
  is empty, raises the no-signed-messages error, not the could-not-find one.
\<close>

theorem signMultipleHashes_claim_counterexample:
  "fst (signMultipleHashes (\<lambda>b. b @ [1])
          (\<lambda>v ms. Inr (Some
             [\<lparr>signed_content = ''0101'', signed_r = ''1b'', signed_s = ''1c'', signed_v = 0,
               signed_publicKey = ''02''\<rparr>,
              \<lparr>signed_content = ''0101'', signed_r = ''2b'', signed_s = ''2c'', signed_v = 0,
               signed_publicKey = ''02''\<rparr>]))
          [\<lparr>hash = [1], inputIndex = 0, hw_sigHashType = 193, hw_bip44AddressIndex = None\<rparr>]
          ''7'')
   \<noteq> fst (signMultipleHashes (\<lambda>b. b @ [1])
          (\<lambda>v ms. Inr (Some
             [\<lparr>signed_content = ''0101'', signed_r = ''2b'', signed_s = ''2c'', signed_v = 0,
               signed_publicKey = ''02''\<rparr>,
              \<lparr>signed_content = ''0101'', signed_r = ''1b'', signed_s = ''1c'', signed_v = 0,
               signed_publicKey = ''02''\<rparr>]))
          [\<lparr>hash = [1], inputIndex = 0, hw_sigHashType = 193, hw_bip44AddressIndex = None\<rparr>]
          ''7'')
   \<and> fst (signMultipleHashes (\<lambda>b. b @ [1]) (\<lambda>v ms. Inr (Some []))
          [\<lparr>hash = [1], inputIndex = 0, hw_sigHashType = 193, hw_bip44AddressIndex = None\<rparr>]
          ''7'')
       = Inl NoSignedMessages
   \<and> fst (signMultipleHashes (\<lambda>b. b @ [1]) (\<lambda>v ms. Inr (Some []))
          [\<lparr>hash = [1], inputIndex = 0, hw_sigHashType = 193, hw_bip44AddressIndex = None\<rparr>]
          ''7'')
       \<noteq> Inl (NoMatchingSignature 0)"
  by (simp add: signMultipleHashes_def prepareMessages_def matchSignature_def doubleHashHex_def
        doubleHash_def toHex_def byteHex_def hexChar_def)

section \<open>Properties of the transfer\<close>

lemma buildTransfer_InrD:
  assumes "buildTransfer w cache recipient amount walletObject options = (Inr draft, cache', calls)"
  shows "\<exists>cfg c1 utxos plan sel ins c3 outs.
           w_vaultAccountId walletObject \<noteq> []
         \<and> ensureConfig w cache = (Inr cfg, cache', c1)
         \<and> 0 < amount
         \<and> fetchUtxosResp w [w_ordAddress walletObject] = Inr utxos
         \<and> planAmounts cfg utxos amount options = Inr plan
         \<and> selectUtxos utxos (plan_amountNeeded plan) = Inr sel
         \<and> fetchInputs w (selectedUtxos sel) = (Inr ins, c3)
         \<and> buildOutputs w cfg recipient (w_ordAddress walletObject) plan (tokensIn sel) = Inr outs
         \<and> draft = \<lparr>draftTx = \<lparr>version = 1, inputs = ins, outputs = outs\<rparr>,
                      draftSelection = sel, draftPlan = plan\<rparr>
         \<and> calls = c1 @ [FetchUtxos [w_ordAddress walletObject]] @ c3"
  using assms
  by (auto simp: buildTransfer_def Let_def split: if_splits prod.splits sum.splits)

lemma planAmounts_InrD:
  assumes "planAmounts cfg utxos amount options = Inr plan"
  shows "\<exists>f. findFee (fees cfg) amount = Some f
         \<and> plan_fee plan = f
         \<and> plan_totalAvailableTokens plan = foldl (\<lambda>sum utxo. dadd sum (amt utxo)) 0 utxos
         \<and> plan_isEmptyingWallet plan = (\<bar>dsub (plan_totalAvailableTokens plan) amount\<bar> < 1)
         \<and> plan_useGrossAmount plan = (grossAmount options \<or> plan_isEmptyingWallet plan)
         \<and> plan_tokenSatAmt plan = (if plan_useGrossAmount plan then dsub amount f else amount)
         \<and> plan_amountNeeded plan = (if plan_useGrossAmount plan then amount else dadd amount f)
         \<and> (plan_useGrossAmount plan \<longrightarrow> 0 < dsub amount f)"
  using assms
  by (auto simp: planAmounts_def Let_def split: option.splits if_splits)

lemma buildOutputs_InrD:
  assumes "buildOutputs w cfg recipient senderAddress plan tokIn = Inr outs"
  shows "outs = \<lparr>lockAddress = recipient, lockApprover = approver cfg, inscriptionId = tokenId cfg,
                  inscriptionAmt = plan_tokenSatAmt plan, satoshis = 1\<rparr>
              # \<lparr>lockAddress = feeAddress cfg, lockApprover = approver cfg,
                  inscriptionId = tokenId cfg, inscriptionAmt = plan_fee plan, satoshis = 1\<rparr>
              # (if dsub tokIn (plan_amountNeeded plan) > 0
                 then [\<lparr>lockAddress = senderAddress, lockApprover = approver cfg,
                         inscriptionId = tokenId cfg,
                         inscriptionAmt = dsub tokIn (plan_amountNeeded plan), satoshis = 1\<rparr>]
                 else [])"
  using assms
  by (auto simp: buildOutputs_def changeOutputs_def tokenOutput_def Let_def
           split: option.splits sum.splits if_splits)

lemma selectUtxos_InrD: "selectUtxos utxos n = Inr sel \<Longrightarrow> n \<le> tokensIn sel"
  by (auto simp: selectUtxos_def Let_def split: if_splits)

text \<open>
  While the amounts are not negative and their total is at most \<open>2 ^ 53\<close>, the total that
  \<open>transferTokens\<close> adds up is their sum.
\<close>

lemma foldl_dadd_exact:
  assumes "\<forall>u \<in> set utxos. 0 \<le> amt u" "0 \<le> acc" "acc + sum_list (map amt utxos) \<le> 2 ^ 53"
  shows "foldl (\<lambda>sum utxo. dadd sum (amt utxo)) acc utxos = acc + sum_list (map amt utxos)"
  using assms
proof (induction utxos arbitrary: acc)
  case Nil
  then show ?case by simp
next
  case (Cons u utxos)
  have rest: "0 \<le> sum_list (map amt utxos)"
    using Cons.prems(1) by (intro sum_list_nonneg) auto
  have e: "dadd acc (amt u) = acc + amt u"
    using Cons.prems rest by (intro dadd_exact) simp_all
  have "foldl (\<lambda>sum utxo. dadd sum (amt utxo)) (acc + amt u) utxos
          = acc + amt u + sum_list (map amt utxos)"
    using Cons.prems by (intro Cons.IH) simp_all
  then show ?case by (simp add: e)
qed

text \<open>The example transfers: 850 tokens net (fee on top) and 850 tokens gross.\<close>

lemma example_plan_850:
  "planAmounts exampleConfig exampleUtxos 850 \<lparr>grossAmount = False\<rparr> =
     Inr \<lparr>plan_totalAvailableTokens = 1050, plan_isEmptyingWallet = False,
          plan_useGrossAmount = False, plan_fee = 5, plan_tokenSatAmt = 850,
          plan_amountNeeded = 855\<rparr>"
  by (simp add: planAmounts_def exampleConfig_def exampleUtxos_def findFee_def dadd_def dsub_def
        roundDouble_exact Let_def)

lemma example_build_850:
  "buildTransfer exampleWorld None ''1Recipient'' 850 exampleWallet \<lparr>grossAmount = False\<rparr> =
     (Inr \<lparr>draftTx =
             \<lparr>version = 1,
              inputs = [\<lparr>sourceTXID = ''t1'', sourceOutputIndex = 0,
                         sourceTransaction = Some [\<lparr>src_lockingScript = ''76a9'', src_satoshis = 1\<rparr>],
                         unlockingScript = None\<rparr>,
                        \<lparr>sourceTXID = ''t2'', sourceOutputIndex = 0,
                         sourceTransaction = Some [\<lparr>src_lockingScript = ''76a9'', src_satoshis = 1\<rparr>],
                         unlockingScript = None\<rparr>],
              outputs = [\<lparr>lockAddress = ''1Recipient'', lockApprover = ''02aa'',
                          inscriptionId = ''tok'', inscriptionAmt = 850, satoshis = 1\<rparr>,
                         \<lparr>lockAddress = ''1Fee'', lockApprover = ''02aa'',
                          inscriptionId = ''tok'', inscriptionAmt = 5, satoshis = 1\<rparr>,
                         \<lparr>lockAddress = ''1Sender'', lockApprover = ''02aa'',
                          inscriptionId = ''tok'', inscriptionAmt = 45, satoshis = 1\<rparr>]\<rparr>,
            draftSelection =
              \<lparr>selectedUtxos = [\<lparr>amt = 700, owner = ''1Sender'', txid = ''t1'', vout = 0\<rparr>,
                                \<lparr>amt = 200, owner = ''1Sender'', txid = ''t2'', vout = 0\<rparr>],
               signingAddresses = [''1Sender'', ''1Sender''], tokensIn = 900\<rparr>,
            draftPlan =
              \<lparr>plan_totalAvailableTokens = 1050, plan_isEmptyingWallet = False,
               plan_useGrossAmount = False, plan_fee = 5, plan_tokenSatAmt = 850,
               plan_amountNeeded = 855\<rparr>\<rparr>,
      Some exampleConfig,
      [FetchConfig, FetchUtxos [''1Sender''], FetchTransaction ''t1'', FetchTransaction ''t2''])"
proof -
  have w: "fetchConfigResp exampleWorld = Inr exampleConfig"
    "fetchUtxosResp exampleWorld [''1Sender''] = Inr exampleUtxos"
    "\<And>t. fetchTransactionResp exampleWorld t = Inr [\<lparr>src_lockingScript = ''76a9'', src_satoshis = 1\<rparr>]"
    "\<And>a k. lockError exampleWorld a k = None"
    by (simp_all add: exampleWorld_def)
  have c: "approver exampleConfig = ''02aa''" "feeAddress exampleConfig = ''1Fee''"
    "tokenId exampleConfig = ''tok''"
    by (simp_all add: exampleConfig_def)
  show ?thesis
    by (simp add: buildTransfer_def ensureConfig_def exampleWallet_def w example_plan_850
          example_select_855 buildOutputs_def changeOutputs_def tokenOutput_def c dsub_def
          roundDouble_exact Let_def)
qed

lemma example_select_850:
  "selectUtxos exampleUtxos 850 =
     Inr \<lparr>selectedUtxos = [\<lparr>amt = 700, owner = ''1Sender'', txid = ''t1'', vout = 0\<rparr>,
                             \<lparr>amt = 150, owner = ''1Sender'', txid = ''t3'', vout = 0\<rparr>],
          signingAddresses = [''1Sender'', ''1Sender''], tokensIn = 850\<rparr>"
  by (simp add: selectUtxos_def exampleUtxos_def selectLoop.simps pickIndex_def spliceOut_def
        dadd_def dsub_def roundDouble_exact Let_def)

lemma example_plan_850_gross:
  "planAmounts exampleConfig exampleUtxos 850 \<lparr>grossAmount = True\<rparr> =
     Inr \<lparr>plan_totalAvailableTokens = 1050, plan_isEmptyingWallet = False,
          plan_useGrossAmount = True, plan_fee = 5, plan_tokenSatAmt = 845,
          plan_amountNeeded = 850\<rparr>"
  by (simp add: planAmounts_def exampleConfig_def exampleUtxos_def findFee_def dadd_def dsub_def
        roundDouble_exact Let_def)

lemma example_build_850_gross:
  "buildTransfer exampleWorld None ''1Recipient'' 850 exampleWallet \<lparr>grossAmount = True\<rparr> =
     (Inr \<lparr>draftTx =
             \<lparr>version = 1,
              inputs = [\<lparr>sourceTXID = ''t1'', sourceOutputIndex = 0,
                         sourceTransaction = Some [\<lparr>src_lockingScript = ''76a9'', src_satoshis = 1\<rparr>],
                         unlockingScript = None\<rparr>,
                        \<lparr>sourceTXID = ''t3'', sourceOutputIndex = 0,
                         sourceTransaction = Some [\<lparr>src_lockingScript = ''76a9'', src_satoshis = 1\<rparr>],
                         unlockingScript = None\<rparr>],
              outputs = [\<lparr>lockAddress = ''1Recipient'', lockApprover = ''02aa'',
                          inscriptionId = ''tok'', inscriptionAmt = 845, satoshis = 1\<rparr>,
                         \<lparr>lockAddress = ''1Fee'', lockApprover = ''02aa'',
                          inscriptionId = ''tok'', inscriptionAmt = 5, satoshis = 1\<rparr>]\<rparr>,
            draftSelection =
              \<lparr>selectedUtxos = [\<lparr>amt = 700, owner = ''1Sender'', txid = ''t1'', vout = 0\<rparr>,
                                \<lparr>amt = 150, owner = ''1Sender'', txid = ''t3'', vout = 0\<rparr>],
               signingAddresses = [''1Sender'', ''1Sender''], tokensIn = 850\<rparr>,
            draftPlan =
              \<lparr>plan_totalAvailableTokens = 1050, plan_isEmptyingWallet = False,
               plan_useGrossAmount = True, plan_fee = 5, plan_tokenSatAmt = 845,
               plan_amountNeeded = 850\<rparr>\<rparr>,
      Some exampleConfig,
      [FetchConfig, FetchUtxos [''1Sender''], FetchTransaction ''t1'', FetchTransaction ''t3''])"
proof -
  have w: "fetchConfigResp exampleWorld = Inr exampleConfig"
    "fetchUtxosResp exampleWorld [''1Sender''] = Inr exampleUtxos"
    "\<And>t. fetchTransactionResp exampleWorld t = Inr [\<lparr>src_lockingScript = ''76a9'', src_satoshis = 1\<rparr>]"
    "\<And>a k. lockError exampleWorld a k = None"
    by (simp_all add: exampleWorld_def)
  have c: "approver exampleConfig = ''02aa''" "feeAddress exampleConfig = ''1Fee''"
    "tokenId exampleConfig = ''tok''"
    by (simp_all add: exampleConfig_def)
  show ?thesis
    by (simp add: buildTransfer_def ensureConfig_def exampleWallet_def w example_plan_850_gross
          example_select_850 buildOutputs_def changeOutputs_def tokenOutput_def c dsub_def
          roundDouble_exact Let_def)
qed

text \<open>
  Within the range of exact arithmetic the amounts of a plan are the exact differences
  and sums.
\<close>

lemma planAmounts_exact:
  assumes plan: "planAmounts cfg utxos amount options = Inr plan"
      and amount: "0 < amount"
      and nonneg: "\<forall>u \<in> set utxos. 0 \<le> amt u"
      and bound: "sum_list (map amt utxos) \<le> 2 ^ 53"
      and fee: "0 \<le> plan_fee plan" "amount + plan_fee plan \<le> 2 ^ 53"
  shows "plan_totalAvailableTokens plan = sum_list (map amt utxos)"
    and "plan_useGrossAmount plan
           = (grossAmount options \<or> \<bar>sum_list (map amt utxos) - amount\<bar> < 1)"
    and "plan_tokenSatAmt plan
           = (if plan_useGrossAmount plan then amount - plan_fee plan else amount)"
    and "plan_amountNeeded plan
           = (if plan_useGrossAmount plan then amount else amount + plan_fee plan)"
proof -
  from planAmounts_InrD [OF plan] obtain f where f:
    "plan_fee plan = f"
    "plan_totalAvailableTokens plan = foldl (\<lambda>sum utxo. dadd sum (amt utxo)) 0 utxos"
    "plan_isEmptyingWallet plan = (\<bar>dsub (plan_totalAvailableTokens plan) amount\<bar> < 1)"
    "plan_useGrossAmount plan = (grossAmount options \<or> plan_isEmptyingWallet plan)"
    "plan_tokenSatAmt plan = (if plan_useGrossAmount plan then dsub amount f else amount)"
    "plan_amountNeeded plan = (if plan_useGrossAmount plan then amount else dadd amount f)"
    by blast
  have sum0: "0 \<le> sum_list (map amt utxos)"
    using nonneg by (intro sum_list_nonneg) auto
  show total: "plan_totalAvailableTokens plan = sum_list (map amt utxos)"
    using foldl_dadd_exact [of utxos 0] nonneg bound by (simp add: f)
  have "\<bar>sum_list (map amt utxos) - amount\<bar> \<le> 2 ^ 53"
    using sum0 bound amount fee by simp
  then have "dsub (sum_list (map amt utxos)) amount = sum_list (map amt utxos) - amount"
    by (simp add: dsub_def roundDouble_exact)
  then show "plan_useGrossAmount plan
           = (grossAmount options \<or> \<bar>sum_list (map amt utxos) - amount\<bar> < 1)"
    by (simp add: f(3,4) total)
  have "\<bar>amount - f\<bar> \<le> 2 ^ 53"
    using amount fee by (simp add: f(1))
  then have "dsub amount f = amount - f"
    by (simp add: dsub_def roundDouble_exact)
  then show "plan_tokenSatAmt plan
           = (if plan_useGrossAmount plan then amount - plan_fee plan else amount)"
    by (simp add: f(1,5))
  have "dadd amount f = amount + f"
    using amount fee by (intro dadd_exact) (simp_all add: f(1))
  then show "plan_amountNeeded plan
           = (if plan_useGrossAmount plan then amount else amount + plan_fee plan)"
    by (simp add: f(1,6))
qed

text \<open>
  C5 (as amended).  For every transaction that \<open>transferTokens\<close> builds, with requested
  amount \<open>A\<close> and resolved fee \<open>F\<close> (the fee of the first tier containing \<open>A\<close>), when
  the amounts of the sender's UTXOs and the fee are not negative and the total of the UTXOs
  and \<open>A + F\<close> are at most \<open>2 ^ 53\<close>: in gross mode (requested, or detected because the
  transfer empties the wallet) the recipient output carries \<open>A - F\<close> tokens and the amount
  needed that is passed to the UTXO selection is \<open>A\<close>; in net mode the recipient output
  carries \<open>A\<close> tokens and the amount needed is \<open>A + F\<close>.
\<close>

theorem gross_net_amounts:
  assumes "buildTransfer w cache recipient amount walletObject options = (Inr draft, cache', calls)"
      and "fetchUtxosResp w [w_ordAddress walletObject] = Inr utxos"
      and "\<forall>u \<in> set utxos. 0 \<le> amt u"
      and "sum_list (map amt utxos) \<le> 2 ^ 53"
      and "0 \<le> plan_fee (draftPlan draft)"
      and "amount + plan_fee (draftPlan draft) \<le> 2 ^ 53"
  shows "\<exists>cfg F.
           fst (ensureConfig w cache) = Inr cfg
         \<and> findFee (fees cfg) amount = Some F
         \<and> plan_fee (draftPlan draft) = F
         \<and> plan_useGrossAmount (draftPlan draft)
             = (grossAmount options \<or> \<bar>sum_list (map amt utxos) - amount\<bar> < 1)
         \<and> lockAddress (outputs (draftTx draft) ! 0) = recipient
         \<and> selectUtxos utxos (plan_amountNeeded (draftPlan draft)) = Inr (draftSelection draft)
         \<and> (if plan_useGrossAmount (draftPlan draft)
             then inscriptionAmt (outputs (draftTx draft) ! 0) = amount - F
                \<and> plan_amountNeeded (draftPlan draft) = amount
             else inscriptionAmt (outputs (draftTx draft) ! 0) = amount
                \<and> plan_amountNeeded (draftPlan draft) = amount + F)"
proof -
  from buildTransfer_InrD [OF assms(1)] assms(2) obtain cfg c1 plan sel ins c3 outs where
    cfg: "ensureConfig w cache = (Inr cfg, cache', c1)"
    and amount: "0 < amount"
    and plan: "planAmounts cfg utxos amount options = Inr plan"
    and sel: "selectUtxos utxos (plan_amountNeeded plan) = Inr sel"
    and outs: "buildOutputs w cfg recipient (w_ordAddress walletObject) plan (tokensIn sel) = Inr outs"
    and draft: "draft = \<lparr>draftTx = \<lparr>version = 1, inputs = ins, outputs = outs\<rparr>,
                      draftSelection = sel, draftPlan = plan\<rparr>"
    by auto
  from planAmounts_InrD [OF plan] obtain f where f: "findFee (fees cfg) amount = Some f"
    "plan_fee plan = f"
    by blast
  have fee: "0 \<le> plan_fee plan" "amount + plan_fee plan \<le> 2 ^ 53"
    using assms(5,6) by (simp_all add: draft)
  note e = planAmounts_exact [OF plan amount assms(3,4) fee]
  have o: "lockAddress (outs ! 0) = recipient" "inscriptionAmt (outs ! 0) = plan_tokenSatAmt plan"
    by (simp_all add: buildOutputs_InrD [OF outs])
  show ?thesis
  proof (intro exI conjI)
    show "fst (ensureConfig w cache) = Inr cfg" by (simp add: cfg)
    show "findFee (fees cfg) amount = Some f" by (rule f)
    show "plan_fee (draftPlan draft) = f" by (simp add: draft f)
    show "plan_useGrossAmount (draftPlan draft)
             = (grossAmount options \<or> \<bar>sum_list (map amt utxos) - amount\<bar> < 1)"
      using e(2) by (simp add: draft)
    show "lockAddress (outputs (draftTx draft) ! 0) = recipient" by (simp add: draft o)
    show "selectUtxos utxos (plan_amountNeeded (draftPlan draft)) = Inr (draftSelection draft)"
      by (simp add: draft sel)
    show "if plan_useGrossAmount (draftPlan draft)
             then inscriptionAmt (outputs (draftTx draft) ! 0) = amount - f
                \<and> plan_amountNeeded (draftPlan draft) = amount
             else inscriptionAmt (outputs (draftTx draft) ! 0) = amount
                \<and> plan_amountNeeded (draftPlan draft) = amount + f"
      using e(3,4) f(2) by (simp add: draft o)
  qed
qed

text \<open>The example vault lies within the range of exact arithmetic.\<close>

lemma example_hyps:
  "fetchUtxosResp exampleWorld [w_ordAddress exampleWallet] = Inr exampleUtxos"
  "\<forall>u \<in> set exampleUtxos. 0 \<le> amt u"
  "sum_list (map amt exampleUtxos) \<le> 2 ^ 53"
  by (simp_all add: exampleWorld_def exampleUtxos_def)

theorem gross_net_amounts_witness:
  "(\<exists>draft cache' calls.
      buildTransfer exampleWorld None ''1Recipient'' 850 exampleWallet \<lparr>grossAmount = False\<rparr>
        = (Inr draft, cache', calls)
    \<and> \<not> plan_useGrossAmount (draftPlan draft)
    \<and> plan_fee (draftPlan draft) = 5
    \<and> inscriptionAmt (outputs (draftTx draft) ! 0) = 850
    \<and> plan_amountNeeded (draftPlan draft) = 855)
   \<and> (\<exists>draft cache' calls.
      buildTransfer exampleWorld None ''1Recipient'' 850 exampleWallet \<lparr>grossAmount = True\<rparr>
        = (Inr draft, cache', calls)
    \<and> plan_useGrossAmount (draftPlan draft)
    \<and> plan_fee (draftPlan draft) = 5
    \<and> inscriptionAmt (outputs (draftTx draft) ! 0) = 845
    \<and> plan_amountNeeded (draftPlan draft) = 850)"
proof (intro conjI)
  from gross_net_amounts [OF example_build_850 example_hyps]
  show "\<exists>draft cache' calls.
      buildTransfer exampleWorld None ''1Recipient'' 850 exampleWallet \<lparr>grossAmount = False\<rparr>
        = (Inr draft, cache', calls)
    \<and> \<not> plan_useGrossAmount (draftPlan draft)
    \<and> plan_fee (draftPlan draft) = 5
    \<and> inscriptionAmt (outputs (draftTx draft) ! 0) = 850
    \<and> plan_amountNeeded (draftPlan draft) = 855"
    by (simp add: example_build_850)
  from gross_net_amounts [OF example_build_850_gross example_hyps]
  show "\<exists>draft cache' calls.
      buildTransfer exampleWorld None ''1Recipient'' 850 exampleWallet \<lparr>grossAmount = True\<rparr>
        = (Inr draft, cache', calls)
    \<and> plan_useGrossAmount (draftPlan draft)
    \<and> plan_fee (draftPlan draft) = 5
    \<and> inscriptionAmt (outputs (draftTx draft) ! 0) = 845
    \<and> plan_amountNeeded (draftPlan draft) = 850"
    by (simp add: example_build_850_gross)
qed

text \<open>
  A net transfer of \<open>2 ^ 53 - 1\<close> tokens at fee 2 out of one UTXO of \<open>2 ^ 53\<close> tokens: the
  sum \<open>2 ^ 53 + 1\<close> of amount and fee is no double, the amount needed is \<open>2 ^ 53\<close>, and the
  UTXO covers it.
\<close>

lemma dadd_2_53_1: "dadd 9007199254740991 2 = 9007199254740992"
proof -
  have "ulp 9007199254740993 = 2"
    by (simp add: ulp_double ulp_small)
  then show ?thesis
    by (simp add: dadd_def roundDouble_def Let_def)
qed

lemma large_plan:
  "planAmounts largeConfig
     [\<lparr>amt = 9007199254740992, owner = ''1Sender'', txid = ''t1'', vout = 0\<rparr>]
     9007199254740991 \<lparr>grossAmount = False\<rparr> =
     Inr \<lparr>plan_totalAvailableTokens = 9007199254740992, plan_isEmptyingWallet = False,
          plan_useGrossAmount = False, plan_fee = 2, plan_tokenSatAmt = 9007199254740991,
          plan_amountNeeded = 9007199254740992\<rparr>"
proof -
  have 1: "dadd 0 9007199254740992 = 9007199254740992"
    by (simp add: dadd_def roundDouble_exact)
  have 2: "dsub 9007199254740992 9007199254740991 = 1"
    by (simp add: dsub_def roundDouble_exact)
  show ?thesis
    by (simp add: planAmounts_def largeConfig_def findFee_def 1 2 dadd_2_53_1 Let_def)
qed

lemma large_select:
  "selectUtxos [\<lparr>amt = 9007199254740992, owner = ''1Sender'', txid = ''t1'', vout = 0\<rparr>]
     9007199254740992 =
     Inr \<lparr>selectedUtxos = [\<lparr>amt = 9007199254740992, owner = ''1Sender'', txid = ''t1'', vout = 0\<rparr>],
          signingAddresses = [''1Sender''], tokensIn = 9007199254740992\<rparr>"
  by (simp add: selectUtxos_def selectLoop.simps pickIndex_def spliceOut_def dadd_def dsub_def
        roundDouble_exact Let_def)

lemma large_build:
  "buildTransfer largeWorld None ''1Recipient'' 9007199254740991 exampleWallet
     \<lparr>grossAmount = False\<rparr> =
     (Inr \<lparr>draftTx =
             \<lparr>version = 1,
              inputs = [\<lparr>sourceTXID = ''t1'', sourceOutputIndex = 0,
                         sourceTransaction = Some [\<lparr>src_lockingScript = ''76a9'', src_satoshis = 1\<rparr>],
                         unlockingScript = None\<rparr>],
              outputs = [\<lparr>lockAddress = ''1Recipient'', lockApprover = ''02aa'',
                          inscriptionId = ''tok'', inscriptionAmt = 9007199254740991,
                          satoshis = 1\<rparr>,
                         \<lparr>lockAddress = ''1Fee'', lockApprover = ''02aa'',
                          inscriptionId = ''tok'', inscriptionAmt = 2, satoshis = 1\<rparr>]\<rparr>,
            draftSelection =
              \<lparr>selectedUtxos = [\<lparr>amt = 9007199254740992, owner = ''1Sender'', txid = ''t1'',
                                  vout = 0\<rparr>],
               signingAddresses = [''1Sender''], tokensIn = 9007199254740992\<rparr>,
            draftPlan =
              \<lparr>plan_totalAvailableTokens = 9007199254740992, plan_isEmptyingWallet = False,
               plan_useGrossAmount = False, plan_fee = 2, plan_tokenSatAmt = 9007199254740991,
               plan_amountNeeded = 9007199254740992\<rparr>\<rparr>,
      Some largeConfig,
      [FetchConfig, FetchUtxos [''1Sender''], FetchTransaction ''t1''])"
proof -
  have w: "fetchConfigResp largeWorld = Inr largeConfig"
    "fetchUtxosResp largeWorld [''1Sender'']
       = Inr [\<lparr>amt = 9007199254740992, owner = ''1Sender'', txid = ''t1'', vout = 0\<rparr>]"
    "\<And>t. fetchTransactionResp largeWorld t = Inr [\<lparr>src_lockingScript = ''76a9'', src_satoshis = 1\<rparr>]"
    "\<And>a k. lockError largeWorld a k = None"
    by (simp_all add: largeWorld_def exampleWorld_def)
  have c: "approver largeConfig = ''02aa''" "feeAddress largeConfig = ''1Fee''"
    "tokenId largeConfig = ''tok''"
    by (simp_all add: largeConfig_def)
  show ?thesis
    by (simp add: buildTransfer_def ensureConfig_def exampleWallet_def w large_plan
          large_select buildOutputs_def changeOutputs_def tokenOutput_def c dsub_def
          roundDouble_exact Let_def)
qed

text \<open>
  C5 as stated fails: in the net transfer above, of \<open>A = 2 ^ 53 - 1\<close> tokens at the fee
  \<open>F = 2\<close>, the amount needed is \<open>2 ^ 53\<close>, less than \<open>A + F\<close>.
\<close>

theorem gross_net_claim_counterexample:
  "\<exists>draft cache' calls.
      buildTransfer largeWorld None ''1Recipient'' 9007199254740991 exampleWallet
        \<lparr>grossAmount = False\<rparr> = (Inr draft, cache', calls)
    \<and> \<not> plan_useGrossAmount (draftPlan draft)
    \<and> plan_fee (draftPlan draft) = 2
    \<and> inscriptionAmt (outputs (draftTx draft) ! 0) = 9007199254740991
    \<and> plan_amountNeeded (draftPlan draft) = 9007199254740992
    \<and> plan_amountNeeded (draftPlan draft) < 9007199254740991 + plan_fee (draftPlan draft)"
  by (simp add: large_build)

text \<open>
  C6 (as amended).  For every transaction that \<open>transferTokens\<close> builds, when the amounts
  of the sender's UTXOs and the fee are not negative and the total of the UTXOs and the
  sum of the requested amount and the fee are at most \<open>2 ^ 53\<close>: the outputs are the
  recipient output, the fee output and the change outputs; \<open>tokensIn\<close> is the sum of the
  selected amounts and equals the recipient amount plus the fee plus the change amount.
  When \<open>tokensIn - amountNeeded\<close> is positive there is exactly one change output, locked to
  the sender, whose inscription amount is that difference; otherwise the difference is 0
  and there is no change output.
\<close>

theorem change_conservation:
  assumes "buildTransfer w cache recipient amount walletObject options = (Inr draft, cache', calls)"
      and "fetchUtxosResp w [w_ordAddress walletObject] = Inr utxos"
      and "\<forall>u \<in> set utxos. 0 \<le> amt u"
      and "sum_list (map amt utxos) \<le> 2 ^ 53"
      and "0 \<le> plan_fee (draftPlan draft)"
      and "amount + plan_fee (draftPlan draft) \<le> 2 ^ 53"
  shows "\<exists>recipientOut feeOut change.
           outputs (draftTx draft) = recipientOut # feeOut # change
         \<and> inscriptionAmt recipientOut = plan_tokenSatAmt (draftPlan draft)
         \<and> inscriptionAmt feeOut = plan_fee (draftPlan draft)
         \<and> tokensIn (draftSelection draft)
             = sum_list (map amt (selectedUtxos (draftSelection draft)))
         \<and> tokensIn (draftSelection draft)
             = inscriptionAmt recipientOut + inscriptionAmt feeOut
               + sum_list (map inscriptionAmt change)
         \<and> (if tokensIn (draftSelection draft) - plan_amountNeeded (draftPlan draft) > 0
             then \<exists>c. change = [c]
                    \<and> inscriptionAmt c
                        = tokensIn (draftSelection draft) - plan_amountNeeded (draftPlan draft)
                    \<and> lockAddress c = w_ordAddress walletObject
             else change = []
                \<and> tokensIn (draftSelection draft) - plan_amountNeeded (draftPlan draft) = 0)"
proof -
  from buildTransfer_InrD [OF assms(1)] assms(2) obtain cfg c1 plan sel ins c3 outs where
    amount: "0 < amount"
    and plan: "planAmounts cfg utxos amount options = Inr plan"
    and sel: "selectUtxos utxos (plan_amountNeeded plan) = Inr sel"
    and outs: "buildOutputs w cfg recipient (w_ordAddress walletObject) plan (tokensIn sel) = Inr outs"
    and draft: "draft = \<lparr>draftTx = \<lparr>version = 1, inputs = ins, outputs = outs\<rparr>,
                      draftSelection = sel, draftPlan = plan\<rparr>"
    by auto
  have fee: "0 \<le> plan_fee plan" "amount + plan_fee plan \<le> 2 ^ 53"
    using assms(5,6) by (simp_all add: draft)
  note e = planAmounts_exact [OF plan amount assms(3,4) fee]
  note s = selectUtxos_exact [OF sel assms(3,4)]
  have ge: "plan_amountNeeded plan \<le> tokensIn sel"
    using sel by (rule selectUtxos_InrD)
  have sum: "plan_tokenSatAmt plan + plan_fee plan = plan_amountNeeded plan"
    using e(3,4) by simp
  have "0 \<le> plan_amountNeeded plan"
    using e(4) amount fee(1) by simp
  then have d: "dsub (tokensIn sel) (plan_amountNeeded plan)
                  = tokensIn sel - plan_amountNeeded plan"
    using ge s(2) assms(4) by (intro dsub_exact) simp_all
  note o = buildOutputs_InrD [OF outs, unfolded d]
  have exact: "tokensIn (draftSelection draft)
                 = sum_list (map amt (selectedUtxos (draftSelection draft)))"
    using s(1) by (simp add: draft)
  have "\<exists>recipientOut feeOut change.
           outputs (draftTx draft) = recipientOut # feeOut # change
         \<and> inscriptionAmt recipientOut = plan_tokenSatAmt (draftPlan draft)
         \<and> inscriptionAmt feeOut = plan_fee (draftPlan draft)
         \<and> tokensIn (draftSelection draft)
             = inscriptionAmt recipientOut + inscriptionAmt feeOut
               + sum_list (map inscriptionAmt change)
         \<and> (if tokensIn (draftSelection draft) - plan_amountNeeded (draftPlan draft) > 0
             then \<exists>c. change = [c]
                    \<and> inscriptionAmt c
                        = tokensIn (draftSelection draft) - plan_amountNeeded (draftPlan draft)
                    \<and> lockAddress c = w_ordAddress walletObject
             else change = []
                \<and> tokensIn (draftSelection draft) - plan_amountNeeded (draftPlan draft) = 0)"
  proof (cases "tokensIn sel - plan_amountNeeded plan > 0")
    case True
    then show ?thesis
      using sum by (simp add: draft o)
  next
    case False
    with ge have "tokensIn sel = plan_amountNeeded plan" by simp
    then show ?thesis
      using sum by (simp add: draft o)
  qed
  with exact show ?thesis by blast
qed

theorem change_conservation_witness:
  "(\<exists>draft cache' calls.
      buildTransfer exampleWorld None ''1Recipient'' 850 exampleWallet \<lparr>grossAmount = False\<rparr>
        = (Inr draft, cache', calls)
    \<and> tokensIn (draftSelection draft) = 900
    \<and> map inscriptionAmt (outputs (draftTx draft)) = [850, 5, 45])
   \<and> (\<exists>draft cache' calls.
      buildTransfer exampleWorld None ''1Recipient'' 850 exampleWallet \<lparr>grossAmount = True\<rparr>
        = (Inr draft, cache', calls)
    \<and> tokensIn (draftSelection draft) = 850
    \<and> map inscriptionAmt (outputs (draftTx draft)) = [845, 5])"
proof (intro conjI)
  from change_conservation [OF example_build_850 example_hyps]
  show "\<exists>draft cache' calls.
      buildTransfer exampleWorld None ''1Recipient'' 850 exampleWallet \<lparr>grossAmount = False\<rparr>
        = (Inr draft, cache', calls)
    \<and> tokensIn (draftSelection draft) = 900
    \<and> map inscriptionAmt (outputs (draftTx draft)) = [850, 5, 45]"
    by (simp add: example_build_850)
  from change_conservation [OF example_build_850_gross example_hyps]
  show "\<exists>draft cache' calls.
      buildTransfer exampleWorld None ''1Recipient'' 850 exampleWallet \<lparr>grossAmount = True\<rparr>
        = (Inr draft, cache', calls)
    \<and> tokensIn (draftSelection draft) = 850
    \<and> map inscriptionAmt (outputs (draftTx draft)) = [845, 5]"
    by (simp add: example_build_850_gross)
qed

text \<open>
  C6 as stated fails: the net transfer above, of \<open>2 ^ 53 - 1\<close> tokens at the fee 2, selects
  \<open>2 ^ 53\<close> tokens and has no change output; the recipient amount and the fee sum to
  \<open>2 ^ 53 + 1\<close>, one token more than the selected total.
\<close>

theorem change_conservation_claim_counterexample:
  "\<exists>draft cache' calls.
      buildTransfer largeWorld None ''1Recipient'' 9007199254740991 exampleWallet
        \<lparr>grossAmount = False\<rparr> = (Inr draft, cache', calls)
    \<and> tokensIn (draftSelection draft) = 9007199254740992
    \<and> map inscriptionAmt (outputs (draftTx draft)) = [9007199254740991, 2]
    \<and> tokensIn (draftSelection draft) < sum_list (map inscriptionAmt (outputs (draftTx draft)))"
  by (simp add: large_build)

text \<open>
  C7.  For UTXOs with the amounts 700, 200 and 150, in this order, and the target 850,
  \<open>selectUtxos\<close> returns the UTXOs of 700 and 150, in this order, with \<open>tokensIn = 850\<close>:
  no UTXO equals or covers 850, so the largest is taken (index 0), and the UTXO of 150 is
  the exact match for the remaining 150.  With this selection and an amount needed of 850
  no change output is built.
\<close>

theorem select_700_200_150_target_850:
  assumes "amt u1 = 700" "amt u2 = 200" "amt u3 = 150"
  shows "selectUtxos [u1, u2, u3] 850
           = Inr \<lparr>selectedUtxos = [u1, u3], signingAddresses = [owner u1, owner u3],
                  tokensIn = 850\<rparr>
       \<and> sort_key (\<lambda>u. - amt u) [u1, u2, u3] = [u1, u2, u3]
       \<and> firstIndex (\<lambda>u. amt u = 850) [u1, u2, u3] = None
       \<and> lastIndex (\<lambda>u. 850 \<le> amt u) [u1, u2, u3] = None
       \<and> pickIndex 850 [u1, u2, u3] = 0
       \<and> firstIndex (\<lambda>u. amt u = 850 - 700) [u2, u3] = Some 1
       \<and> pickIndex (850 - 700) [u2, u3] = 1
       \<and> changeOutputs w cfg senderAddress
            (tokensIn \<lparr>selectedUtxos = [u1, u3], signingAddresses = [owner u1, owner u3],
                       tokensIn = 850\<rparr>) 850 = Inr []"
  using assms
  by (simp add: selectUtxos_def selectLoop.simps pickIndex_def spliceOut_def changeOutputs_def
        dadd_def dsub_def roundDouble_exact Let_def)

theorem select_700_200_150_target_850_witness:
  "amt \<lparr>amt = 700, owner = ''1Sender'', txid = ''t1'', vout = 0\<rparr> = 700
   \<and> selectUtxos
        [\<lparr>amt = 700, owner = ''1Sender'', txid = ''t1'', vout = 0\<rparr>,
         \<lparr>amt = 200, owner = ''1Sender'', txid = ''t2'', vout = 0\<rparr>,
         \<lparr>amt = 150, owner = ''1Sender'', txid = ''t3'', vout = 0\<rparr>] 850
       = Inr \<lparr>selectedUtxos = [\<lparr>amt = 700, owner = ''1Sender'', txid = ''t1'', vout = 0\<rparr>,
                                 \<lparr>amt = 150, owner = ''1Sender'', txid = ''t3'', vout = 0\<rparr>],
              signingAddresses = [''1Sender'', ''1Sender''], tokensIn = 850\<rparr>"
  using select_700_200_150_target_850
          [of "\<lparr>amt = 700, owner = ''1Sender'', txid = ''t1'', vout = 0\<rparr>"
              "\<lparr>amt = 200, owner = ''1Sender'', txid = ''t2'', vout = 0\<rparr>"
              "\<lparr>amt = 150, owner = ''1Sender'', txid = ''t3'', vout = 0\<rparr>"]
  by simp


text \<open>
  A full-balance withdrawal, requested by leaving out the amount, from a vault with an id
  and at least one address, whose UTXOs and configuration are fetched and whose total lies
  in a fee tier, fails with the insufficient-balance-to-cover-fee error when the total is
  at most that fee; it has then made no call but the fetches of the addresses, the UTXOs
  and, if not cached, the configuration.
\<close>

lemma full_balance_at_most_fee_fails:
  assumes "sourceVaultAccountId \<noteq> []"
      and "vaultAddressesResp w sourceVaultAccountId = Inr addressesWithIndexes"
      and "addressesWithIndexes \<noteq> []"
      and "fetchUtxosResp w (map fst addressesWithIndexes) = Inr utxos"
      and "fst (ensureConfig w cache) = Inr cfg"
      and "findFee (fees cfg) (vaultTotal utxos) = Some F"
      and "vaultTotal utxos \<le> F"
  shows "fst (transferTokensFromVault w cache sourceVaultAccountId recipientAddress None options)
           = Inl (InsufficientBalanceToCoverFee (vaultTotal utxos) F)
       \<and> snd (snd (transferTokensFromVault w cache sourceVaultAccountId recipientAddress None
                      options))
           = [GetVaultAddresses sourceVaultAccountId, FetchUtxos (map fst addressesWithIndexes)]
             @ (if cache = None then [FetchConfig] else [])"
proof -
  obtain a i others where l: "addressesWithIndexes = (a, i) # others"
    using assms(3) by (cases addressesWithIndexes) auto
  obtain cache1 c3 where e: "ensureConfig w cache = (Inr cfg, cache1, c3)"
    using assms(5) by (cases "ensureConfig w cache") auto
  then have c3: "c3 = (if cache = None then [FetchConfig] else [])"
    by (auto simp: ensureConfig_def split: option.splits sum.splits)
  have v: "vaultAmount cfg (vaultTotal utxos) None options
             = Inl (InsufficientBalanceToCoverFee (vaultTotal utxos) F)"
    using assms(6,7) by (simp add: vaultAmount_def)
  show ?thesis
    using assms(1,2,4) l e v c3 by (simp add: transferTokensFromVault_def Let_def)
qed

text \<open>
  The fee check inside \<open>transferTokens\<close> (``Insufficient tokens to cover fee when emptying
  wallet'') never fires: a transfer that empties the wallet has the total as its amount and
  is gross, and a gross transfer whose amount does not exceed the fee has already failed
  with the amount-after-fee error.
\<close>

lemma planAmounts_fee_guard_unreachable:
  "planAmounts cfg utxos amount options \<noteq> Inl (InsufficientTokensForFee h f)"
proof -
  have "\<not> (\<bar>dsub t amount\<bar> < 1 \<and> 0 < dsub amount g \<and> t < g)" for t g
    by (auto simp: dsub_def roundDouble_eq_0_iff roundDouble_pos_iff)
  then show ?thesis
    by (auto simp: planAmounts_def Let_def split: option.splits)
qed


text \<open>
  The amount 0.000024999999999999998, the double \<open>1844674407370955 * 2 ^ - 66\<close>: its
  product with \<open>10 ^ 5\<close> is the double 2.5, which \<open>Math.round\<close> takes to 3.
\<close>

lemma tokensToSatoshis_half: "tokensToSatoshis (1844674407370955, - 66) = 3"
proof -
  have "ulp 184467440737095500000 = 32768"
    by (simp add: ulp_double ulp_small)
  then have "roundDouble 184467440737095500000 = 184467440737095516160"
    by (simp add: roundDouble_def Let_def)
  then show ?thesis
    by (simp add: tokensToSatoshis_def mathRound_def)
qed



text \<open>
  \<open>transferTokens\<close> is private.  Its one caller, \<open>transferTokensFromVault\<close>, has loaded the
  configuration before it calls, so \<open>transferTokens\<close> always starts with the configuration
  cached.
\<close>

lemma ensureConfig_cached:
  "ensureConfig w cache = (Inr cfg, cache1, calls) \<Longrightarrow> cache1 = Some cfg"
  by (auto simp: ensureConfig_def split: option.splits sum.splits)

lemma transferTokensFromVault_passes_config:
  assumes "sourceVaultAccountId \<noteq> []"
      and "vaultAddressesResp w sourceVaultAccountId = Inr ((firstAddress, firstIdx) # others)"
      and "fetchUtxosResp w (map fst ((firstAddress, firstIdx) # others)) = Inr utxos"
      and "ensureConfig w cache = (Inr cfg, cache1, c3)"
      and "vaultAmount cfg (vaultTotal utxos) amount options = Inr (satoshiAmount, options1)"
  shows "transferTokensFromVault w cache sourceVaultAccountId recipientAddress amount options =
           (case transferTokens w (Some cfg) recipientAddress satoshiAmount
                   (sourceWallet sourceVaultAccountId firstAddress
                      ((firstAddress, firstIdx) # others) utxos) options1 of
              (res, cache2, c4) \<Rightarrow>
                (res, cache2,
                 [GetVaultAddresses sourceVaultAccountId,
                  FetchUtxos (map fst ((firstAddress, firstIdx) # others))] @ c3 @ c4))"
  using assms ensureConfig_cached [OF assms(4)]
  by (simp add: transferTokensFromVault_def Let_def)



text \<open>
  Seen from \<open>transferTokensFromVault\<close>, the vault addresses, the UTXOs and the configuration
  have been fetched by the time \<open>transferTokens\<close> rejects an amount of 0.
\<close>

lemma zero_amount_from_vault:
  "transferTokensFromVault exampleWorld None ''7'' ''1Recipient'' (Some (0, 0))
     \<lparr>grossAmount = False\<rparr>
     = (Inl InvalidAmount, Some exampleConfig,
        [GetVaultAddresses ''7'', FetchUtxos [''1Sender''], FetchConfig])"
proof -
  have t: "vaultTotal exampleUtxos = 1050"
    by (simp add: vaultTotal_def exampleUtxos_def dadd_def roundDouble_exact)
  have v: "vaultAmount exampleConfig 1050 (Some (0, 0)) \<lparr>grossAmount = False\<rparr>
             = Inr (0, \<lparr>grossAmount = False\<rparr>)"
    by (simp add: vaultAmount_def tokensToSatoshis_def mathRound_def findFee_def
          exampleConfig_def dadd_def roundDouble_exact Let_def)
  have w: "vaultAddressesResp exampleWorld ''7'' = Inr [(''1Sender'', 0)]"
    "fetchUtxosResp exampleWorld [''1Sender''] = Inr exampleUtxos"
    "ensureConfig exampleWorld None = (Inr exampleConfig, Some exampleConfig, [FetchConfig])"
    by (simp_all add: exampleWorld_def ensureConfig_def)
  have transfer: "transferTokens exampleWorld (Some exampleConfig) ''1Recipient'' 0
                    (sourceWallet ''7'' ''1Sender'' [(''1Sender'', 0)] exampleUtxos)
                    \<lparr>grossAmount = False\<rparr>
                  = (Inl InvalidAmount, Some exampleConfig, [])"
    by (simp add: transferTokens_def buildTransfer_def ensureConfig_def sourceWallet_def
          exampleUtxos_def)
  show ?thesis
    by (simp add: transferTokensFromVault_def w t v transfer Let_def)
qed

end
